theory Spec2Isabelle
  imports Main "HOL-Library.Char_ord" "HOL-Library.List_Lexorder" "HOL-Library.AList"
    "HOL-Library.Word"
begin

section \<open>Values\<close>

text \<open>
  The scalar \<open>Value\<close> of the engine is declared outside the files under study; the
  window operator and the filter combiner only use its fields (\<open>is_null\<close>, \<open>str_value\<close>,
  \<open>type()\<close>) and its operators.  It is kept here as the struct it is: a type tag, the
  null flag, the numeric payload and the string payload.
\<close>

datatype LogicalType =
  SQLNULL | BOOLEAN | TINYINT | SMALLINT | INTEGER | BIGINT | HUGEINT | VARCHAR

record Value =
  vtype :: LogicalType
  is_null :: bool
  numeric :: int
  str_value :: string

definition NullValue :: "LogicalType \<Rightarrow> Value" where
  "NullValue t = \<lparr>vtype = t, is_null = True, numeric = 0, str_value = []\<rparr>"

definition Numeric :: "LogicalType \<Rightarrow> int \<Rightarrow> Value" where
  "Numeric t n = \<lparr>vtype = t, is_null = False, numeric = n, str_value = []\<rparr>"

definition StringValue :: "string \<Rightarrow> Value" where
  "StringValue s = \<lparr>vtype = VARCHAR, is_null = False, numeric = 0, str_value = s\<rparr>"

text \<open>
  Modelled from the spec: the comparison operators of \<open>Value\<close> (section 3, "NULLs compare
  as incomparable: never less, greater or equal").  Two values are comparable when neither
  is null and both are strings or both are numbers; strings compare bytewise
  (lexicographically), numbers by their numeric payload.  \<open>!=\<close> is the negation of \<open>==\<close>,
  \<open>>\<close> and \<open>>=\<close> are \<open><\<close> and \<open><=\<close> with the operands exchanged.
\<close>

definition comparable :: "Value \<Rightarrow> Value \<Rightarrow> bool" where
  "comparable a b =
     (\<not> is_null a \<and> \<not> is_null b \<and> ((vtype a = VARCHAR) = (vtype b = VARCHAR)))"

definition value_lt :: "Value \<Rightarrow> Value \<Rightarrow> bool" where
  "value_lt a b =
     (comparable a b \<and>
      (if vtype a = VARCHAR then str_value a < str_value b else numeric a < numeric b))"

definition value_eq :: "Value \<Rightarrow> Value \<Rightarrow> bool" where
  "value_eq a b =
     (comparable a b \<and>
      (if vtype a = VARCHAR then str_value a = str_value b else numeric a = numeric b))"

definition value_le :: "Value \<Rightarrow> Value \<Rightarrow> bool" where
  "value_le a b = (value_lt a b \<or> value_eq a b)"

definition value_gt :: "Value \<Rightarrow> Value \<Rightarrow> bool" where
  "value_gt a b = value_lt b a"

definition value_ge :: "Value \<Rightarrow> Value \<Rightarrow> bool" where
  "value_ge a b = value_le b a"

definition value_ne :: "Value \<Rightarrow> Value \<Rightarrow> bool" where
  "value_ne a b = (\<not> value_eq a b)"

section \<open>Expressions\<close>

datatype ExpressionType =
    COMPARE_EQUAL | COMPARE_NOTEQUAL
  | COMPARE_LESSTHAN | COMPARE_GREATERTHAN
  | COMPARE_LESSTHANOREQUALTO | COMPARE_GREATERTHANOREQUALTO
  | COMPARE_IN | COMPARE_NOT_IN | COMPARE_BETWEEN
  | CONJUNCTION_AND | CONJUNCTION_OR
  | OPERATOR_NOT | OPERATOR_IS_NULL
  | VALUE_CONSTANT | VALUE_PARAMETER
  | BOUND_COLUMN_REF | BOUND_FUNCTION
  | WINDOW_SUM | WINDOW_MIN | WINDOW_MAX | WINDOW_AVG
  | WINDOW_COUNT_STAR | WINDOW_ROW_NUMBER | WINDOW_RANK | WINDOW_RANK_DENSE
  | WINDOW_FIRST_VALUE | WINDOW_LAST_VALUE | WINDOW_NTILE

datatype error =
    AssertionFailed
  | NotFoldable
  | OutOfRange
  | InvalidCast
  | OutOfFuel
  | DivisionByZero
  | NotImplementedException
  | InvalidWindowBoundary

section \<open>The filter combiner: comparing two constant bounds\<close>

record ExpressionValueInformation =
  "constant" :: Value
  comparison_type :: ExpressionType

datatype ValueComparisonResult =
  PRUNE_LEFT | PRUNE_RIGHT | UNSATISFIABLE_CONDITION | PRUNE_NOTHING

definition IsGreaterThan :: "ExpressionType \<Rightarrow> bool" where
  "IsGreaterThan t = (t = COMPARE_GREATERTHAN \<or> t = COMPARE_GREATERTHANOREQUALTO)"

definition IsLessThan :: "ExpressionType \<Rightarrow> bool" where
  "IsLessThan t = (t = COMPARE_LESSTHAN \<or> t = COMPARE_LESSTHANOREQUALTO)"

fun InvertValueComparisonResult :: "ValueComparisonResult \<Rightarrow> ValueComparisonResult" where
  "InvertValueComparisonResult PRUNE_RIGHT = PRUNE_LEFT"
| "InvertValueComparisonResult PRUNE_LEFT = PRUNE_RIGHT"
| "InvertValueComparisonResult r = r"

text \<open>
  \<open>CompareValueInformation\<close> calls itself with the operands exchanged; \<open>swap_rank\<close> is
  the measure of that recursion (an exchanged call lands in a branch that answers
  directly).  The debug assertions of the source are branches of the model.
\<close>

definition swap_rank :: "ExpressionValueInformation \<times> ExpressionValueInformation \<Rightarrow> nat" where
  "swap_rank p =
     (case p of (l, r) \<Rightarrow>
        if comparison_type l = COMPARE_EQUAL then 0
        else if comparison_type r = COMPARE_EQUAL then 1
        else if comparison_type l = COMPARE_NOTEQUAL then 0
        else if comparison_type r = COMPARE_NOTEQUAL then 1
        else if IsLessThan (comparison_type l) then 0
        else 1)"

definition CompareEqualLeft ::
  "ExpressionValueInformation \<Rightarrow> ExpressionValueInformation \<Rightarrow> error + ValueComparisonResult"
where
  "CompareEqualLeft left right =
       (let verdict = (\<lambda>prune_right_side.
              if prune_right_side then Inr PRUNE_RIGHT else Inr UNSATISFIABLE_CONDITION)
        in
        if comparison_type right = COMPARE_LESSTHAN then
          verdict (value_lt (constant left) (constant right))
        else if comparison_type right = COMPARE_LESSTHANOREQUALTO then
          verdict (value_le (constant left) (constant right))
        else if comparison_type right = COMPARE_GREATERTHAN then
          verdict (value_gt (constant left) (constant right))
        else if comparison_type right = COMPARE_GREATERTHANOREQUALTO then
          verdict (value_ge (constant left) (constant right))
        else if comparison_type right = COMPARE_NOTEQUAL then
          verdict (value_ne (constant left) (constant right))
        else if comparison_type right = COMPARE_EQUAL then
          verdict (value_eq (constant left) (constant right))
        else Inl AssertionFailed)"

definition CompareNotEqualLeft ::
  "ExpressionValueInformation \<Rightarrow> ExpressionValueInformation \<Rightarrow> error + ValueComparisonResult"
where
  "CompareNotEqualLeft left right =
       (let verdict = (\<lambda>prune_left_side.
              if prune_left_side then Inr PRUNE_LEFT else Inr PRUNE_NOTHING)
        in
        if comparison_type right = COMPARE_LESSTHAN then
          verdict (value_ge (constant left) (constant right))
        else if comparison_type right = COMPARE_LESSTHANOREQUALTO then
          verdict (value_gt (constant left) (constant right))
        else if comparison_type right = COMPARE_GREATERTHAN then
          verdict (value_le (constant left) (constant right))
        else if comparison_type right = COMPARE_GREATERTHANOREQUALTO then
          verdict (value_lt (constant left) (constant right))
        else if comparison_type right = COMPARE_NOTEQUAL then
          verdict (value_eq (constant left) (constant right))
        else Inl AssertionFailed)"

definition CompareBothGreater ::
  "ExpressionValueInformation \<Rightarrow> ExpressionValueInformation \<Rightarrow> error + ValueComparisonResult"
where
  "CompareBothGreater left right =
       (if value_gt (constant left) (constant right) then Inr PRUNE_RIGHT
        else if value_lt (constant left) (constant right) then Inr PRUNE_LEFT
        else if comparison_type left = COMPARE_GREATERTHANOREQUALTO then Inr PRUNE_LEFT
        else Inr PRUNE_RIGHT)"

definition CompareBothLess ::
  "ExpressionValueInformation \<Rightarrow> ExpressionValueInformation \<Rightarrow> error + ValueComparisonResult"
where
  "CompareBothLess left right =
       (if value_lt (constant left) (constant right) then Inr PRUNE_RIGHT
        else if value_gt (constant left) (constant right) then Inr PRUNE_LEFT
        else if comparison_type left = COMPARE_LESSTHANOREQUALTO then Inr PRUNE_LEFT
        else Inr PRUNE_RIGHT)"

definition CompareLessGreater ::
  "ExpressionValueInformation \<Rightarrow> ExpressionValueInformation \<Rightarrow> error + ValueComparisonResult"
where
  "CompareLessGreater left right =
       (if \<not> IsGreaterThan (comparison_type right) then Inl AssertionFailed
        else if value_ge (constant left) (constant right) then Inr PRUNE_NOTHING
        else Inr UNSATISFIABLE_CONDITION)"

function CompareValueInformation ::
  "ExpressionValueInformation \<Rightarrow> ExpressionValueInformation \<Rightarrow> error + ValueComparisonResult"
where
  "CompareValueInformation left right =
    (if comparison_type left = COMPARE_EQUAL then CompareEqualLeft left right
     else if comparison_type right = COMPARE_EQUAL then
       map_sum id InvertValueComparisonResult (CompareValueInformation right left)
     else if comparison_type left = COMPARE_NOTEQUAL then CompareNotEqualLeft left right
     else if comparison_type right = COMPARE_NOTEQUAL then
       map_sum id InvertValueComparisonResult (CompareValueInformation right left)
     else if IsGreaterThan (comparison_type left) \<and> IsGreaterThan (comparison_type right) then
       CompareBothGreater left right
     else if IsLessThan (comparison_type left) \<and> IsLessThan (comparison_type right) then
       CompareBothLess left right
     else if IsLessThan (comparison_type left) then CompareLessGreater left right
     else
       (if \<not> (IsLessThan (comparison_type right) \<and> IsGreaterThan (comparison_type left))
        then Inl AssertionFailed
        else map_sum id InvertValueComparisonResult (CompareValueInformation right left)))"
  by pat_completeness auto
termination
  by (relation "measure swap_rank") (auto simp: swap_rank_def IsLessThan_def IsGreaterThan_def)

declare CompareValueInformation.simps [simp del]


section \<open>Bound expressions\<close>

text \<open>
  The expression classes the combiner looks at.  A column reference carries its
  \<open>binding.column_index\<close>; a comparison, a conjunction and an operator carry their
  \<open>ExpressionType\<close>; a function carries its name.  Expression pointers are modelled by
  the expressions themselves: the expression maps of the combiner hash and compare
  their keys structurally, as \<open>Equals\<close> does.
\<close>

datatype Expression =
    BoundColumnRefExpression nat
  | BoundConstantExpression Value
  | BoundParameterExpression nat
  | BoundComparisonExpression ExpressionType Expression Expression
  | BoundBetweenExpression Expression Expression Expression bool bool
  | BoundConjunctionExpression ExpressionType "Expression list"
  | BoundOperatorExpression ExpressionType "Expression list"
  | BoundFunctionExpression string "Expression list"

datatype ExpressionClass =
    CLASS_BOUND_COLUMN_REF | CLASS_BOUND_CONSTANT | CLASS_BOUND_PARAMETER
  | CLASS_BOUND_COMPARISON | CLASS_BOUND_BETWEEN | CLASS_BOUND_CONJUNCTION
  | CLASS_BOUND_OPERATOR | CLASS_BOUND_FUNCTION

fun expression_class :: "Expression \<Rightarrow> ExpressionClass" where
  "expression_class (BoundColumnRefExpression _) = CLASS_BOUND_COLUMN_REF"
| "expression_class (BoundConstantExpression _) = CLASS_BOUND_CONSTANT"
| "expression_class (BoundParameterExpression _) = CLASS_BOUND_PARAMETER"
| "expression_class (BoundComparisonExpression _ _ _) = CLASS_BOUND_COMPARISON"
| "expression_class (BoundBetweenExpression _ _ _ _ _) = CLASS_BOUND_BETWEEN"
| "expression_class (BoundConjunctionExpression _ _) = CLASS_BOUND_CONJUNCTION"
| "expression_class (BoundOperatorExpression _ _) = CLASS_BOUND_OPERATOR"
| "expression_class (BoundFunctionExpression _ _) = CLASS_BOUND_FUNCTION"

fun expression_type :: "Expression \<Rightarrow> ExpressionType" where
  "expression_type (BoundColumnRefExpression _) = BOUND_COLUMN_REF"
| "expression_type (BoundConstantExpression _) = VALUE_CONSTANT"
| "expression_type (BoundParameterExpression _) = VALUE_PARAMETER"
| "expression_type (BoundComparisonExpression t _ _) = t"
| "expression_type (BoundBetweenExpression _ _ _ _ _) = COMPARE_BETWEEN"
| "expression_type (BoundConjunctionExpression t _) = t"
| "expression_type (BoundOperatorExpression t _) = t"
| "expression_type (BoundFunctionExpression _ _) = BOUND_FUNCTION"



text \<open>
  Modelled from the spec: \<open>Value::CastAs\<close> (a null stays null in the new type; the
  boolean of a number is whether it is not zero) and \<open>FlipComparisionExpression\<close>
  (section 4.4: "flip the comparison if the scalar is on the left").
\<close>

definition CastAs :: "Value \<Rightarrow> LogicalType \<Rightarrow> Value" where
  "CastAs v t =
     (if is_null v then NullValue t
      else if t = BOOLEAN then Numeric BOOLEAN (if numeric v \<noteq> 0 then 1 else 0)
      else v\<lparr>vtype := t\<rparr>)"



section \<open>The filter combiner: state and \<open>AddFilter\<close>\<close>


text \<open>
  The two hash maps keyed by equivalence set are association lists, iterated in
  insertion order (the iteration order of the source's \<open>unordered_map\<close> is unspecified).
\<close>

record FilterCombiner =
  remaining_filters :: "Expression list"
  stored_expressions :: "Expression set"
  equivalence_set_map :: "Expression \<rightharpoonup> nat"
  equivalence_map :: "(nat \<times> Expression list) list"
  constant_values :: "(nat \<times> ExpressionValueInformation list) list"
  set_index :: nat

definition empty_combiner :: FilterCombiner where
  "empty_combiner =
     \<lparr>remaining_filters = [], stored_expressions = {}, equivalence_set_map = Map.empty,
      equivalence_map = [], constant_values = [], set_index = 0\<rparr>"


























section \<open>The filter combiner: emitting filters\<close>

text \<open>
  \<open>GenerateFilters\<close> hands every filter to a callback; the model returns the filters in
  the order of the calls.  For one entry of an equivalence set, \<open>constant_filters\<close> is
  the loop over the constants: it emits the comparisons that are no bound and records
  the index and inclusiveness of the last lower and the last upper bound.  The code
  walks \<open>equivalence_map\<close>, an \<open>unordered_map\<close>, in the order of its hash table; the
  model walks it in the order of insertion, so the order in which the filters of
  different sets are emitted is the model's choice and no property below relies on it.
\<close>

record BoundIndexes =
  lower_index :: int
  upper_index :: int
  lower_inclusive :: bool
  upper_inclusive :: bool

fun constant_filters :: "Expression \<Rightarrow> ExpressionValueInformation list \<Rightarrow> int \<Rightarrow> BoundIndexes
    \<Rightarrow> Expression list \<times> BoundIndexes" where
  "constant_filters entry [] k b = ([], b)"
| "constant_filters entry (info # rest) k b =
     (if comparison_type info = COMPARE_GREATERTHAN \<or>
         comparison_type info = COMPARE_GREATERTHANOREQUALTO then
        constant_filters entry rest (k + 1)
          (b\<lparr>lower_index := k,
             lower_inclusive := (comparison_type info = COMPARE_GREATERTHANOREQUALTO)\<rparr>)
      else if comparison_type info = COMPARE_LESSTHAN \<or>
              comparison_type info = COMPARE_LESSTHANOREQUALTO then
        constant_filters entry rest (k + 1)
          (b\<lparr>upper_index := k,
             upper_inclusive := (comparison_type info = COMPARE_LESSTHANOREQUALTO)\<rparr>)
      else
        (case constant_filters entry rest (k + 1) b of
           (fs, b') \<Rightarrow>
             (BoundComparisonExpression (comparison_type info) entry
                (BoundConstantExpression (constant info)) # fs, b')))"

definition bound_filters :: "Expression \<Rightarrow> ExpressionValueInformation list \<Rightarrow> BoundIndexes
    \<Rightarrow> Expression list" where
  "bound_filters entry constant_list b =
     (if lower_index b \<ge> 0 \<and> upper_index b \<ge> 0 then
        [BoundBetweenExpression entry
           (BoundConstantExpression (constant (constant_list ! nat (lower_index b))))
           (BoundConstantExpression (constant (constant_list ! nat (upper_index b))))
           (lower_inclusive b) (upper_inclusive b)]
      else if lower_index b \<ge> 0 then
        [BoundComparisonExpression (comparison_type (constant_list ! nat (lower_index b))) entry
           (BoundConstantExpression (constant (constant_list ! nat (lower_index b))))]
      else if upper_index b \<ge> 0 then
        [BoundComparisonExpression (comparison_type (constant_list ! nat (upper_index b))) entry
           (BoundConstantExpression (constant (constant_list ! nat (upper_index b))))]
      else [])"

text \<open>The loop over the entries of one equivalence set, from entry \<open>i\<close> on.\<close>

fun entry_filters :: "Expression list \<Rightarrow> ExpressionValueInformation list \<Rightarrow> Expression list" where
  "entry_filters [] constant_list = []"
| "entry_filters (entry # later) constant_list =
     map (\<lambda>other. BoundComparisonExpression COMPARE_EQUAL entry other) later @
     (case constant_filters entry constant_list 0
             \<lparr>lower_index = -1, upper_index = -1,
              lower_inclusive = False, upper_inclusive = False\<rparr> of
        (fs, b) \<Rightarrow> fs @ bound_filters entry constant_list b) @
     entry_filters later constant_list"

fun set_filters :: "(nat \<times> ExpressionValueInformation list) list
    \<Rightarrow> (nat \<times> Expression list) list \<Rightarrow> error + Expression list" where
  "set_filters cv [] = Inr []"
| "set_filters cv ((equivalence_set, entries) # others) =
     (case map_of cv equivalence_set of
        None \<Rightarrow> Inl OutOfRange
      | Some constant_list \<Rightarrow>
          (case set_filters cv others of
             Inl e \<Rightarrow> Inl e
           | Inr fs \<Rightarrow> Inr (entry_filters entries constant_list @ fs)))"

definition GenerateFilters :: "FilterCombiner \<Rightarrow> error + (Expression list \<times> FilterCombiner)" where
  "GenerateFilters st =
     (case set_filters (constant_values st) (equivalence_map st) of
        Inl e \<Rightarrow> Inl e
      | Inr fs \<Rightarrow>
          Inr (remaining_filters st @ fs,
               st\<lparr>remaining_filters := [], stored_expressions := {},
                  equivalence_set_map := Map.empty, constant_values := [],
                  equivalence_map := []\<rparr>))"

definition HasFilters :: "FilterCombiner \<Rightarrow> error + (bool \<times> FilterCombiner)" where
  "HasFilters st =
     (case GenerateFilters st of
        Inl e \<Rightarrow> Inl e
      | Inr (filters, st') \<Rightarrow> Inr (filters \<noteq> [], st'))"

section \<open>The filter combiner: table scan filters\<close>

datatype TableFilter = TableFilter Value ExpressionType nat

text \<open>
  Modelled from the spec: the row-id sentinel \<open>COLUMN_IDENTIFIER_ROW_ID\<close> (section 4.4,
  "the column is not the row-id sentinel") and \<open>TypeIsNumeric\<close>, both declared outside
  the files under study.
\<close>

definition COLUMN_IDENTIFIER_ROW_ID :: nat where
  "COLUMN_IDENTIFIER_ROW_ID = 18446744073709551615"

definition TypeIsNumeric :: "LogicalType \<Rightarrow> bool" where
  "TypeIsNumeric t = (t = TINYINT \<or> t = SMALLINT \<or> t = INTEGER \<or> t = BIGINT \<or> t = HUGEINT)"

definition column_id :: "nat list \<Rightarrow> nat \<Rightarrow> error + nat" where
  "column_id column_ids i = (if i < length column_ids then Inr (column_ids ! i) else Inl OutOfRange)"

text \<open>
  The first loop, over the equivalence sets with constants.  \<open>Stop\<close> is the \<open>break\<close>
  out of the loop.  The code walks \<open>constant_values\<close>, an \<open>unordered_map\<close>, in the
  order of its hash table; the model walks it in the order of insertion.  With several
  sets the order decides which sets are seen before a \<open>break\<close>, so the properties
  below run this loop on an empty \<open>constant_values\<close> only.
\<close>

datatype 'a LoopControl = Continue 'a | Stop 'a

definition pushable_constant :: "ExpressionValueInformation \<Rightarrow> bool" where
  "pushable_constant info =
     ((comparison_type info = COMPARE_EQUAL \<or>
       comparison_type info = COMPARE_GREATERTHAN \<or>
       comparison_type info = COMPARE_GREATERTHANOREQUALTO \<or>
       comparison_type info = COMPARE_LESSTHAN \<or>
       comparison_type info = COMPARE_LESSTHANOREQUALTO) \<and>
      (TypeIsNumeric (vtype (constant info)) \<or> vtype (constant info) = VARCHAR))"

definition constant_table_filters :: "nat list \<Rightarrow> (nat \<times> Expression list) list
    \<Rightarrow> nat \<Rightarrow> ExpressionValueInformation list
    \<Rightarrow> error + (TableFilter list \<times> (nat \<times> Expression list) list) LoopControl" where
  "constant_table_filters column_ids em equivalence_set constant_list =
     (if constant_list = [] then Inr (Continue ([], em))
      else if \<not> pushable_constant (hd constant_list) then Inr (Continue ([], em))
      else
        (case map_of em equivalence_set of
           None \<Rightarrow> Inl OutOfRange
         | Some [entry] \<Rightarrow>
             if expression_type entry \<noteq> BOUND_COLUMN_REF then Inr (Continue ([], em))
             else
               (case entry of
                  BoundColumnRefExpression column_index \<Rightarrow>
                    (case column_id column_ids column_index of
                       Inl e \<Rightarrow> Inl e
                     | Inr cid \<Rightarrow>
                         if cid = COLUMN_IDENTIFIER_ROW_ID then Inr (Stop ([], em))
                         else Inr (Continue
                           (map (\<lambda>info. TableFilter (constant info) (comparison_type info)
                                         column_index) constant_list,
                            AList.delete equivalence_set em)))
                | _ \<Rightarrow> Inl InvalidCast)
         | Some _ \<Rightarrow> Inr (Continue ([], em))))"

fun constant_loop :: "nat list \<Rightarrow> (nat \<times> ExpressionValueInformation list) list
    \<Rightarrow> TableFilter list \<Rightarrow> (nat \<times> Expression list) list
    \<Rightarrow> error + (TableFilter list \<times> (nat \<times> Expression list) list)" where
  "constant_loop column_ids [] tableFilters em = Inr (tableFilters, em)"
| "constant_loop column_ids ((equivalence_set, constant_list) # others) tableFilters em =
     (case constant_table_filters column_ids em equivalence_set constant_list of
        Inl e \<Rightarrow> Inl e
      | Inr (Stop (new, em')) \<Rightarrow> Inr (tableFilters @ new, em')
      | Inr (Continue (new, em')) \<Rightarrow> constant_loop column_ids others (tableFilters @ new) em')"

text \<open>
  The second loop, over the remaining filters.  \<open>increment_last\<close> is
  \<open>str_value[size - 1]++\<close> on bytes.
\<close>

definition increment_last :: "string \<Rightarrow> error + string" where
  "increment_last s =
     (if s = [] then Inl OutOfRange
      else Inr (butlast s @ [char_of (of_char (last s) + (1::nat))]))"

definition range_filters :: "Value \<Rightarrow> string \<Rightarrow> nat \<Rightarrow> error + TableFilter list" where
  "range_filters const_value prefix column_index =
     (case increment_last prefix of
        Inl e \<Rightarrow> Inl e
      | Inr upper \<Rightarrow>
          Inr [TableFilter (const_value\<lparr>str_value := prefix\<rparr>)
                 COMPARE_GREATERTHANOREQUALTO column_index,
               TableFilter (const_value\<lparr>str_value := upper\<rparr>) COMPARE_LESSTHAN column_index])"

definition is_wildcard :: "char \<Rightarrow> bool" where
  "is_wildcard c = (c = CHR ''%'' \<or> c = CHR ''_'')"

datatype ScanControl =
    Next "TableFilter list"
  | Break
  | EraseAndNext "TableFilter list"

text \<open>
  The guard shared by the \<open>prefix\<close> and \<open>~~\<close> branches: the first child is of class
  \<open>BOUND_COLUMN_REF\<close> and the second of type \<open>VALUE_CONSTANT\<close>.  It gives the column
  index and the constant, or nothing when the guard fails.
\<close>

definition column_and_constant :: "Expression list \<Rightarrow> error + (nat \<times> Value) option" where
  "column_and_constant children =
     (case children of
        [] \<Rightarrow> Inl OutOfRange
      | BoundColumnRefExpression column_index # rest \<Rightarrow>
          (case rest of
             [] \<Rightarrow> Inl OutOfRange
           | second # _ \<Rightarrow>
               if expression_type second \<noteq> VALUE_CONSTANT then Inr None
               else (case second of
                       BoundConstantExpression v \<Rightarrow> Inr (Some (column_index, v))
                     | _ \<Rightarrow> Inl InvalidCast))
      | _ \<Rightarrow> Inr None)"

definition prefix_filter :: "Expression list \<Rightarrow> error + ScanControl" where
  "prefix_filter children =
     (case column_and_constant children of
        Inl e \<Rightarrow> Inl e
      | Inr None \<Rightarrow> Inr (Next [])
      | Inr (Some (column_index, v)) \<Rightarrow>
          (let like_string = str_value v
           in if like_string = [] then Inr (Next [])
              else map_sum id Next (range_filters v like_string column_index)))"

definition like_filter :: "Expression list \<Rightarrow> error + ScanControl" where
  "like_filter children =
     (case column_and_constant children of
        Inl e \<Rightarrow> Inl e
      | Inr None \<Rightarrow> Inr (Next [])
      | Inr (Some (column_index, v)) \<Rightarrow>
          (let like_string = str_value v
           in if like_string \<noteq> [] \<and> is_wildcard (hd like_string) then Inr Break
              else
                (let prefix = takeWhile (\<lambda>c. \<not> is_wildcard c) like_string;
                     equality = (\<forall>c \<in> set like_string. \<not> is_wildcard c)
                 in if equality then
                      Inr (Next [TableFilter (v\<lparr>str_value := prefix\<rparr>) COMPARE_EQUAL column_index])
                    else map_sum id Next (range_filters v prefix column_index))))"

text \<open>
  The sort of the \<open>IN\<close> values is an insertion sort by the \<open><\<close> of \<open>Value\<close>.
  Modelled from the spec: the subtraction of two values (section 3, "must support
  arithmetic"), a null when an operand is null, with no overflow.
\<close>

fun insert_value :: "Value \<Rightarrow> Value list \<Rightarrow> Value list" where
  "insert_value x [] = [x]"
| "insert_value x (y # ys) = (if value_lt y x then y # insert_value x ys else x # y # ys)"

definition sort_values :: "Value list \<Rightarrow> Value list" where
  "sort_values vs = foldr insert_value vs []"

definition value_minus :: "Value \<Rightarrow> Value \<Rightarrow> Value" where
  "value_minus a b =
     (if is_null a \<or> is_null b then NullValue (vtype a)
      else Numeric (vtype a) (numeric a - numeric b))"

fun is_consecutive :: "Value list \<Rightarrow> bool" where
  "is_consecutive (a # b # rest) =
     (\<not> (value_gt (value_minus b a) (Numeric INTEGER 1) \<or> is_null a) \<and> is_consecutive (b # rest))"
| "is_consecutive _ = True"

definition children_constant :: "Expression list \<Rightarrow> bool" where
  "children_constant children = (\<forall>c \<in> set (tl children). expression_type c = VALUE_CONSTANT)"

fun constant_value :: "Expression \<Rightarrow> error + Value" where
  "constant_value (BoundConstantExpression v) = Inr v"
| "constant_value _ = Inl InvalidCast"

fun constant_values_of :: "Expression list \<Rightarrow> error + Value list" where
  "constant_values_of [] = Inr []"
| "constant_values_of (c # rest) =
     (case constant_value c of
        Inl e \<Rightarrow> Inl e
      | Inr v \<Rightarrow> map_sum id ((#) v) (constant_values_of rest))"

definition integer_type :: "LogicalType \<Rightarrow> bool" where
  "integer_type t = (t = BIGINT \<or> t = INTEGER \<or> t = SMALLINT \<or> t = TINYINT \<or> t = HUGEINT)"

definition in_filter :: "nat list \<Rightarrow> Expression list \<Rightarrow> error + ScanControl" where
  "in_filter column_ids children =
     (if \<not> length children > 1 then Inl AssertionFailed
      else case hd children of
        BoundColumnRefExpression column_index \<Rightarrow>
          (case column_id column_ids column_index of
             Inl e \<Rightarrow> Inl e
           | Inr cid \<Rightarrow>
               if cid = COLUMN_IDENTIFIER_ROW_ID then Inr Break
               else
                 if \<not> children_constant children then Inr (Next [])
                 else
                   (case constant_values_of (tl children) of
                      Inl e \<Rightarrow> Inl e
                    | Inr values \<Rightarrow>
                        if integer_type (vtype (hd values)) then
                          (let in_values = sort_values values
                           in if is_consecutive in_values \<and> in_values \<noteq> [] then
                                Inr (EraseAndNext
                                  [TableFilter (hd in_values) COMPARE_GREATERTHANOREQUALTO
                                     column_index,
                                   TableFilter (last in_values) COMPARE_LESSTHANOREQUALTO
                                     column_index])
                              else Inr (Next []))
                        else Inr (Next [])))
      | _ \<Rightarrow> Inr (Next []))"

text \<open>The body of the second loop for one remaining filter.\<close>

definition scan_filter :: "nat list \<Rightarrow> Expression \<Rightarrow> error + ScanControl" where
  "scan_filter column_ids remaining_filter =
     (case remaining_filter of
        BoundFunctionExpression name children \<Rightarrow>
          if name = ''prefix'' then prefix_filter children
          else if name = ''~~'' then like_filter children
          else Inr (Next [])
      | BoundOperatorExpression t children \<Rightarrow>
          if t = COMPARE_IN then in_filter column_ids children else Inr (Next [])
      | _ \<Rightarrow>
          if expression_type remaining_filter = COMPARE_IN then Inl InvalidCast
          else Inr (Next []))"

function scan_remaining :: "nat list \<Rightarrow> Expression list \<Rightarrow> nat \<Rightarrow> TableFilter list
    \<Rightarrow> error + (TableFilter list \<times> Expression list)" where
  "scan_remaining column_ids filters rem_fil_idx tableFilters =
     (if rem_fil_idx < length filters then
        (case scan_filter column_ids (filters ! rem_fil_idx) of
           Inl e \<Rightarrow> Inl e
         | Inr Break \<Rightarrow> Inr (tableFilters, filters)
         | Inr (Next new) \<Rightarrow>
             scan_remaining column_ids filters (rem_fil_idx + 1) (tableFilters @ new)
         | Inr (EraseAndNext new) \<Rightarrow>
             scan_remaining column_ids (take rem_fil_idx filters @ drop (rem_fil_idx + 1) filters)
               (rem_fil_idx + 1) (tableFilters @ new))
      else Inr (tableFilters, filters))"
  by pat_completeness auto
termination
  by (relation "measure (\<lambda>(c, filters, i, t). length filters - i)") auto

declare scan_remaining.simps [simp del]

definition GenerateTableScanFilters :: "nat list \<Rightarrow> FilterCombiner
    \<Rightarrow> error + (TableFilter list \<times> FilterCombiner)" where
  "GenerateTableScanFilters column_ids st =
     (case constant_loop column_ids (constant_values st) [] (equivalence_map st) of
        Inl e \<Rightarrow> Inl e
      | Inr (tableFilters, em) \<Rightarrow>
          (case scan_remaining column_ids (remaining_filters st) 0 tableFilters of
             Inl e \<Rightarrow> Inl e
           | Inr (tableFilters', filters) \<Rightarrow>
               Inr (tableFilters', st\<lparr>equivalence_map := em, remaining_filters := filters\<rparr>)))"



section \<open>The window segment tree\<close>

text \<open>
  Modelled from the spec: the arithmetic of \<open>Value\<close> (section 3: "must support
  arithmetic, numeric-typed minimum and maximum sentinels"; section 9: "no checked
  arithmetic"): the sum and the quotient of two values are null when an operand is
  null, the sum does not overflow, the quotient truncates towards zero; the sentinels are
  the bounds of the integer types.
\<close>

definition value_plus :: "Value \<Rightarrow> Value \<Rightarrow> Value" where
  "value_plus a b =
     (if is_null a \<or> is_null b then NullValue (vtype a)
      else Numeric (vtype a) (numeric a + numeric b))"

definition value_divide :: "Value \<Rightarrow> Value \<Rightarrow> Value" where
  "value_divide a b =
     (if is_null a \<or> is_null b \<or> numeric b = 0 then NullValue (vtype a)
      else Numeric (vtype a) (sgn (numeric a) * sgn (numeric b) * (\<bar>numeric a\<bar> div \<bar>numeric b\<bar>)))"

definition type_bits :: "LogicalType \<Rightarrow> nat option" where
  "type_bits t =
     (if t = TINYINT then Some 8 else if t = SMALLINT then Some 16
      else if t = INTEGER then Some 32 else if t = BIGINT then Some 64
      else if t = HUGEINT then Some 128 else None)"

definition MaximumValue :: "LogicalType \<Rightarrow> error + Value" where
  "MaximumValue t =
     (case type_bits t of
        None \<Rightarrow> Inl NotImplementedException
      | Some w \<Rightarrow> Inr (Numeric t (2 ^ (w - 1) - 1)))"

definition MinimumValue :: "LogicalType \<Rightarrow> error + Value" where
  "MinimumValue t =
     (case type_bits t of
        None \<Rightarrow> Inl NotImplementedException
      | Some w \<Rightarrow> Inr (Numeric t (- (2 ^ (w - 1)))))"

record WindowSegmentTree =
  aggregate :: Value
  n_aggregated :: nat
  levels :: "Value list list"
  input_ref :: "Value list"
  window_type :: ExpressionType
  payload_type :: LogicalType
  fanout :: nat

definition AggregateInit :: "WindowSegmentTree \<Rightarrow> error + WindowSegmentTree" where
  "AggregateInit t =
     (if window_type t = WINDOW_SUM \<or> window_type t = WINDOW_AVG then
        Inr (t\<lparr>aggregate := Numeric (payload_type t) 0, n_aggregated := 0\<rparr>)
      else if window_type t = WINDOW_MIN then
        (case MaximumValue (payload_type t) of
           Inl e \<Rightarrow> Inl e
         | Inr v \<Rightarrow> Inr (t\<lparr>aggregate := v, n_aggregated := 0\<rparr>))
      else if window_type t = WINDOW_MAX then
        (case MinimumValue (payload_type t) of
           Inl e \<Rightarrow> Inl e
         | Inr v \<Rightarrow> Inr (t\<lparr>aggregate := v, n_aggregated := 0\<rparr>))
      else Inl NotImplementedException)"

definition AggregateAccum :: "WindowSegmentTree \<Rightarrow> Value \<Rightarrow> error + WindowSegmentTree" where
  "AggregateAccum t val =
     (if window_type t = WINDOW_SUM \<or> window_type t = WINDOW_AVG then
        Inr (t\<lparr>aggregate := value_plus (aggregate t) val, n_aggregated := n_aggregated t + 1\<rparr>)
      else if window_type t = WINDOW_MIN then
        Inr (t\<lparr>aggregate := (if value_lt val (aggregate t) then val else aggregate t),
               n_aggregated := n_aggregated t + 1\<rparr>)
      else if window_type t = WINDOW_MAX then
        Inr (t\<lparr>aggregate := (if value_gt val (aggregate t) then val else aggregate t),
               n_aggregated := n_aggregated t + 1\<rparr>)
      else Inl NotImplementedException)"

definition AggegateFinal :: "WindowSegmentTree \<Rightarrow> error + Value" where
  "AggegateFinal t =
     (if n_aggregated t = 0 then Inr (CastAs (NullValue SQLNULL) (payload_type t))
      else if window_type t = WINDOW_SUM \<or> window_type t = WINDOW_MIN \<or>
              window_type t = WINDOW_MAX then Inr (aggregate t)
      else if window_type t = WINDOW_AVG then
        Inr (value_divide (aggregate t) (Numeric (payload_type t) (int (n_aggregated t))))
      else Inl NotImplementedException)"

text \<open>
  \<open>Construct\<close>.  \<open>build_level\<close> is the loop over the positions of one level;
  \<open>finish_level\<close> pushes the last, short group, after which the aggregate is not
  initialised again.  The outer loop runs while the last level has more than one value;
  with a fanout of 1 it does not end, so it is bounded by fuel.
\<close>

fun build_level :: "WindowSegmentTree \<Rightarrow> Value list \<Rightarrow> nat \<Rightarrow> Value list
    \<Rightarrow> error + (WindowSegmentTree \<times> nat \<times> Value list)" where
  "build_level t [] fanout_count nl = Inr (t, fanout_count, nl)"
| "build_level t (v # vs) fanout_count nl =
     (case AggregateAccum t v of
        Inl e \<Rightarrow> Inl e
      | Inr t1 \<Rightarrow>
          if fanout_count + 1 = fanout t1 then
            (case AggegateFinal t1 of
               Inl e \<Rightarrow> Inl e
             | Inr f \<Rightarrow>
                 (case AggregateInit t1 of
                    Inl e \<Rightarrow> Inl e
                  | Inr t2 \<Rightarrow> build_level t2 vs 0 (nl @ [f])))
          else build_level t1 vs (fanout_count + 1) nl)"

definition finish_level :: "WindowSegmentTree \<Rightarrow> nat \<Rightarrow> Value list
    \<Rightarrow> error + WindowSegmentTree" where
  "finish_level t fanout_count nl =
     (if fanout_count > 0 then
        (case AggegateFinal t of
           Inl e \<Rightarrow> Inl e
         | Inr f \<Rightarrow> Inr (t\<lparr>levels := levels t @ [nl @ [f]]\<rparr>))
      else Inr (t\<lparr>levels := levels t @ [nl]\<rparr>))"

definition last_level :: "WindowSegmentTree \<Rightarrow> Value list" where
  "last_level t = (if levels t = [] then input_ref t else last (levels t))"

fun construct_levels :: "nat \<Rightarrow> WindowSegmentTree \<Rightarrow> error + WindowSegmentTree" where
  "construct_levels 0 t = (if length (last_level t) > 1 then Inl OutOfFuel else Inr t)"
| "construct_levels (Suc fuel) t =
     (if length (last_level t) > 1 then
        (case build_level t (last_level t) 0 [] of
           Inl e \<Rightarrow> Inl e
         | Inr (t1, fanout_count, nl) \<Rightarrow>
             (case finish_level t1 fanout_count nl of
                Inl e \<Rightarrow> Inl e
              | Inr t2 \<Rightarrow> construct_levels fuel t2))
      else Inr t)"

definition new_tree :: "ExpressionType \<Rightarrow> LogicalType \<Rightarrow> nat \<Rightarrow> WindowSegmentTree" where
  "new_tree t ptype f =
     \<lparr>aggregate = NullValue SQLNULL, n_aggregated = 0, levels = [], input_ref = [],
      window_type = t, payload_type = ptype, fanout = f\<rparr>"

definition Construct :: "nat \<Rightarrow> WindowSegmentTree \<Rightarrow> Value list \<Rightarrow> error + WindowSegmentTree" where
  "Construct fuel t input =
     (case AggregateInit t of
        Inl e \<Rightarrow> Inl e
      | Inr t1 \<Rightarrow> construct_levels fuel (t1\<lparr>input_ref := input\<rparr>))"

text \<open>\<open>WindowSegmentValue\<close>: the values of level \<open>l_idx\<close> from \<open>begin\<close> to \<open>end\<close>.\<close>

definition level_value :: "WindowSegmentTree \<Rightarrow> nat \<Rightarrow> nat \<Rightarrow> error + Value" where
  "level_value t l_idx pos =
     (if l_idx = 0 then
        (if pos < length (input_ref t) then Inr (input_ref t ! pos) else Inl OutOfRange)
      else if l_idx - 1 < length (levels t) \<and> pos < length (levels t ! (l_idx - 1)) then
        Inr (levels t ! (l_idx - 1) ! pos)
      else Inl OutOfRange)"

fun accumulate_positions :: "WindowSegmentTree \<Rightarrow> nat \<Rightarrow> nat list \<Rightarrow> error + WindowSegmentTree" where
  "accumulate_positions t l_idx [] = Inr t"
| "accumulate_positions t l_idx (pos # rest) =
     (case level_value t l_idx pos of
        Inl e \<Rightarrow> Inl e
      | Inr v \<Rightarrow>
          (case AggregateAccum t v of
             Inl e \<Rightarrow> Inl e
           | Inr t1 \<Rightarrow> accumulate_positions t1 l_idx rest))"

definition WindowSegmentValue :: "WindowSegmentTree \<Rightarrow> nat \<Rightarrow> nat \<Rightarrow> nat
    \<Rightarrow> error + WindowSegmentTree" where
  "WindowSegmentValue t l_idx begin end =
     (if \<not> begin \<le> end then Inl AssertionFailed
      else accumulate_positions t l_idx [begin ..< end])"

text \<open>
  One level of \<open>Compute\<close>: either the range lies in one group and the result is final,
  or the ragged ends are accumulated and the range of the parents is handed up.
\<close>

datatype ComputeStep = Finished Value | Ascend WindowSegmentTree nat nat

definition compute_level :: "WindowSegmentTree \<Rightarrow> nat \<Rightarrow> nat \<Rightarrow> nat \<Rightarrow> error + ComputeStep" where
  "compute_level t l_idx begin end =
     (if fanout t = 0 then Inl DivisionByZero
      else
        (let parent_begin = begin div fanout t; parent_end = end div fanout t
         in if parent_begin = parent_end then
              (case WindowSegmentValue t l_idx begin end of
                 Inl e \<Rightarrow> Inl e
               | Inr t1 \<Rightarrow> map_sum id Finished (AggegateFinal t1))
            else
              (let group_begin = parent_begin * fanout t
               in case (if begin \<noteq> group_begin
                        then map_sum id (\<lambda>t1. (t1, parent_begin + 1))
                               (WindowSegmentValue t l_idx begin (group_begin + fanout t))
                        else Inr (t, parent_begin)) of
                    Inl e \<Rightarrow> Inl e
                  | Inr (t1, parent_begin1) \<Rightarrow>
                      (let group_end = parent_end * fanout t
                       in case (if end \<noteq> group_end
                                then WindowSegmentValue t1 l_idx group_end end
                                else Inr t1) of
                            Inl e \<Rightarrow> Inl e
                          | Inr t2 \<Rightarrow> Inr (Ascend t2 parent_begin1 parent_end)))))"

text \<open>The loop of \<open>Compute\<close>; \<open>todo\<close> counts the levels still to visit.\<close>

fun compute_levels :: "nat \<Rightarrow> WindowSegmentTree \<Rightarrow> nat \<Rightarrow> nat \<Rightarrow> nat \<Rightarrow> error + Value" where
  "compute_levels 0 t l_idx begin end = AggegateFinal t"
| "compute_levels (Suc todo) t l_idx begin end =
     (case compute_level t l_idx begin end of
        Inl e \<Rightarrow> Inl e
      | Inr (Finished v) \<Rightarrow> Inr v
      | Inr (Ascend t1 parent_begin parent_end) \<Rightarrow>
          compute_levels todo t1 (l_idx + 1) parent_begin parent_end)"

definition Compute :: "WindowSegmentTree \<Rightarrow> nat \<Rightarrow> nat \<Rightarrow> error + Value" where
  "Compute t begin end =
     (case AggregateInit t of
        Inl e \<Rightarrow> Inl e
      | Inr t1 \<Rightarrow> compute_levels (length (levels t1) + 1) t1 0 begin end)"

text \<open>
  The words of the spec for the reference result: the naive linear accumulation of the
  payload values \<open>a .. b - 1\<close> by \<open>AggregateInit\<close>, \<open>AggregateAccum\<close> and \<open>AggegateFinal\<close>.
\<close>

fun accumulate_values :: "WindowSegmentTree \<Rightarrow> Value list \<Rightarrow> error + WindowSegmentTree" where
  "accumulate_values t [] = Inr t"
| "accumulate_values t (v # vs) =
     (case AggregateAccum t v of Inl e \<Rightarrow> Inl e | Inr t1 \<Rightarrow> accumulate_values t1 vs)"

definition naive_accumulation :: "ExpressionType \<Rightarrow> LogicalType \<Rightarrow> Value list \<Rightarrow> nat \<Rightarrow> nat
    \<Rightarrow> error + Value" where
  "naive_accumulation t ptype payload a b =
     (case AggregateInit (new_tree t ptype 16) of
        Inl e \<Rightarrow> Inl e
      | Inr t0 \<Rightarrow>
          (case accumulate_values t0 (take (b - a) (drop a payload)) of
             Inl e \<Rightarrow> Inl e
           | Inr t1 \<Rightarrow> AggegateFinal t1))"


section \<open>The window operator\<close>

text \<open>
  Modelled from the spec: \<open>ChunkCollection\<close> (section 3), declared outside the files
  under study: a number of columns and the rows; \<open>GetRow(i)\<close> collects \<open>GetValue(c, i)\<close>
  over the columns, so on a collection without columns it is the empty row.
\<close>

record ChunkCollection =
  column_count :: nat
  rows :: "Value list list"

definition empty_collection :: ChunkCollection where
  "empty_collection = \<lparr>column_count = 0, rows = []\<rparr>"

definition GetRow :: "ChunkCollection \<Rightarrow> nat \<Rightarrow> error + Value list" where
  "GetRow c i =
     (if column_count c = 0 then Inr []
      else if i < length (rows c) then Inr (rows c ! i) else Inl OutOfRange)"

definition GetValue :: "ChunkCollection \<Rightarrow> nat \<Rightarrow> nat \<Rightarrow> error + Value" where
  "GetValue c col i =
     (if i < length (rows c) \<and> col < length (rows c ! i) then Inr (rows c ! i ! col)
      else Inl OutOfRange)"

fun column_values :: "nat \<Rightarrow> Value list list \<Rightarrow> error + Value list" where
  "column_values col [] = Inr []"
| "column_values col (r # rs) =
     (if col < length r then map_sum id ((#) (r ! col)) (column_values col rs)
      else Inl OutOfRange)"

fun equals_at :: "Value list \<Rightarrow> Value list \<Rightarrow> nat list \<Rightarrow> error + bool" where
  "equals_at a b [] = Inr True"
| "equals_at a b (i # rest) =
     (if \<not> (i < length a \<and> i < length b) then Inl OutOfRange
      else if value_ne (a ! i) (b ! i) then Inr False
      else equals_at a b rest)"

definition EqualsSubset :: "Value list \<Rightarrow> Value list \<Rightarrow> nat \<Rightarrow> nat \<Rightarrow> error + bool" where
  "EqualsSubset a b start end =
     (if \<not> start \<le> end then Inl AssertionFailed else equals_at a b [start ..< end])"

datatype WindowBoundary =
    INVALID | UNBOUNDED_PRECEDING | UNBOUNDED_FOLLOWING
  | CURRENT_ROW_RANGE | CURRENT_ROW_ROWS | EXPR_PRECEDING | EXPR_FOLLOWING

text \<open>
  Of a window expression the operator uses the function, the return type, the numbers
  of partition and order expressions, the two boundaries and whether the boundary
  expressions are scalar; the expressions themselves are materialised by the engine
  into the collections the functions below take.
\<close>

record WindowExpression =
  wtype :: ExpressionType
  return_type :: LogicalType
  partitions :: nat
  orders :: nat
  start :: WindowBoundary
  "end" :: WindowBoundary
  start_is_scalar :: bool
  end_is_scalar :: bool

text \<open>
  \<open>size_t\<close> and \<open>ssize_t\<close> are 64-bit words; \<open>window_start\<close> and \<open>window_end\<close> are read
  as signed.  Row indexes and sizes of collections are natural numbers below \<open>2 ^ 63\<close>.
\<close>

record WindowBoundariesState =
  partition_start :: "64 word"
  partition_end :: "64 word"
  peer_start :: "64 word"
  peer_end :: "64 word"
  window_start :: "64 word"
  window_end :: "64 word"
  is_same_partition :: bool
  is_peer :: bool
  row_prev :: "Value list"

definition initial_bounds :: WindowBoundariesState where
  "initial_bounds =
     \<lparr>partition_start = 0, partition_end = 0, peer_start = 0, peer_end = 0,
      window_start = - 1, window_end = - 1, is_same_partition = False, is_peer = False,
      row_prev = []\<rparr>"

text \<open>The inner loop of \<open>BinarySearchRightmost\<close>: no compared column of row \<open>m\<close> is greater.\<close>

fun less_than_equals :: "ChunkCollection \<Rightarrow> Value list \<Rightarrow> nat \<Rightarrow> nat list \<Rightarrow> error + bool" where
  "less_than_equals input row m [] = Inr True"
| "less_than_equals input row m (i # rest) =
     (case GetRow input m of
        Inl e \<Rightarrow> Inl e
      | Inr r \<Rightarrow>
          if \<not> (i < length r \<and> i < length row) then Inl OutOfRange
          else if value_gt (r ! i) (row ! i) then Inr False
          else less_than_equals input row m rest)"

function search_rightmost :: "ChunkCollection \<Rightarrow> Value list \<Rightarrow> nat \<Rightarrow> nat \<Rightarrow> nat
    \<Rightarrow> error + nat" where
  "search_rightmost input row l r comp_cols =
     (if l < r then
        (case less_than_equals input row ((l + r) div 2) [0 ..< comp_cols] of
           Inl e \<Rightarrow> Inl e
         | Inr True \<Rightarrow> search_rightmost input row ((l + r) div 2 + 1) r comp_cols
         | Inr False \<Rightarrow> search_rightmost input row l ((l + r) div 2) comp_cols)
      else Inr l)"
  by pat_completeness auto
termination
  by (relation "measure (\<lambda>(input, row, l, r, comp_cols). r - l)") auto

declare search_rightmost.simps [simp del]

definition BinarySearchRightmost :: "ChunkCollection \<Rightarrow> Value list \<Rightarrow> nat \<Rightarrow> nat \<Rightarrow> nat
    \<Rightarrow> error + 64 word" where
  "BinarySearchRightmost input row l r comp_cols =
     (if comp_cols = 0 then Inr (of_nat r - 1)
      else map_sum id (\<lambda>l'. of_nat l' - 1) (search_rightmost input row l r comp_cols))"

text \<open>The partition and peer part of \<open>UpdateWindowBoundaries\<close> (lines 132 to 156).\<close>

definition update_partition :: "WindowExpression \<Rightarrow> ChunkCollection \<Rightarrow> nat
    \<Rightarrow> WindowBoundariesState \<Rightarrow> error + WindowBoundariesState" where
  "update_partition wexpr input row_idx bounds =
     (case GetRow input row_idx of Inl e \<Rightarrow> Inl e | Inr row_cur \<Rightarrow>
      case EqualsSubset (row_prev bounds) row_cur 0 (partitions wexpr) of Inl e \<Rightarrow> Inl e
       | Inr same \<Rightarrow>
      case (if same then EqualsSubset (row_prev bounds) row_cur (partitions wexpr)
                           (partitions wexpr + orders wexpr)
            else Inr False) of Inl e \<Rightarrow> Inl e
       | Inr peer \<Rightarrow>
      (let b1 = bounds\<lparr>is_same_partition := same, is_peer := peer, row_prev := row_cur\<rparr>
       in case (if \<not> same \<or> row_idx = 0 then
                  map_sum id
                    (\<lambda>found. b1\<lparr>partition_start := of_nat row_idx, peer_start := of_nat row_idx,
                                 partition_end := found + 1\<rparr>)
                    (BinarySearchRightmost input row_cur row_idx (length (rows input))
                       (partitions wexpr))
                else if \<not> peer then Inr (b1\<lparr>peer_start := of_nat row_idx\<rparr>)
                else Inr b1) of
            Inl e \<Rightarrow> Inl e
          | Inr b2 \<Rightarrow>
              if end wexpr = CURRENT_ROW_RANGE then
                map_sum id (\<lambda>found. b2\<lparr>peer_end := found + 1\<rparr>)
                  (BinarySearchRightmost input row_cur row_idx (unat (partition_end b2))
                     (partitions wexpr + orders wexpr))
              else Inr b2))"

definition boundary_value :: "ChunkCollection \<Rightarrow> bool \<Rightarrow> nat \<Rightarrow> error + 64 word" where
  "boundary_value collection is_scalar row_idx =
     (if \<not> column_count collection > 0 then Inl AssertionFailed
      else map_sum id (\<lambda>v. of_int (numeric v))
             (GetValue collection 0 (if is_scalar then 0 else row_idx)))"

definition resolve_start :: "WindowExpression \<Rightarrow> nat \<Rightarrow> ChunkCollection
    \<Rightarrow> WindowBoundariesState \<Rightarrow> error + 64 word" where
  "resolve_start wexpr row_idx boundary_start_collection bounds =
     (case start wexpr of
        UNBOUNDED_PRECEDING \<Rightarrow> Inr (partition_start bounds)
      | CURRENT_ROW_ROWS \<Rightarrow> Inr (of_nat row_idx)
      | CURRENT_ROW_RANGE \<Rightarrow> Inr (peer_start bounds)
      | UNBOUNDED_FOLLOWING \<Rightarrow> Inl AssertionFailed
      | EXPR_PRECEDING \<Rightarrow>
          map_sum id (\<lambda>v. of_nat row_idx - v)
            (boundary_value boundary_start_collection (start_is_scalar wexpr) row_idx)
      | EXPR_FOLLOWING \<Rightarrow>
          map_sum id (\<lambda>v. of_nat row_idx + v)
            (boundary_value boundary_start_collection (start_is_scalar wexpr) row_idx)
      | INVALID \<Rightarrow> Inl NotImplementedException)"

definition resolve_end :: "WindowExpression \<Rightarrow> nat \<Rightarrow> ChunkCollection
    \<Rightarrow> WindowBoundariesState \<Rightarrow> error + 64 word" where
  "resolve_end wexpr row_idx boundary_end_collection bounds =
     (case end wexpr of
        UNBOUNDED_PRECEDING \<Rightarrow> Inl AssertionFailed
      | CURRENT_ROW_ROWS \<Rightarrow> Inr (of_nat row_idx + 1)
      | CURRENT_ROW_RANGE \<Rightarrow> Inr (peer_end bounds)
      | UNBOUNDED_FOLLOWING \<Rightarrow> Inr (partition_end bounds)
      | EXPR_PRECEDING \<Rightarrow>
          map_sum id (\<lambda>v. of_nat row_idx - v + 1)
            (boundary_value boundary_end_collection (end_is_scalar wexpr) row_idx)
      | EXPR_FOLLOWING \<Rightarrow>
          map_sum id (\<lambda>v. of_nat row_idx + v + 1)
            (boundary_value boundary_end_collection (end_is_scalar wexpr) row_idx)
      | INVALID \<Rightarrow> Inl NotImplementedException)"

text \<open>
  Lines 224 to 234: the clamp of \<open>window_start\<close> compares as signed (the partition
  start is cast to \<open>ssize_t\<close>), the clamp of \<open>window_end\<close> compares \<open>ssize_t\<close> with
  \<open>size_t\<close>, that is as unsigned; then the test for a negative boundary.
\<close>

definition clamp_window :: "WindowBoundariesState \<Rightarrow> error + WindowBoundariesState" where
  "clamp_window bounds =
     (let b1 = (if sint (window_start bounds) < sint (partition_start bounds)
                then bounds\<lparr>window_start := partition_start bounds\<rparr> else bounds);
          b2 = (if window_end b1 > partition_end b1
                then b1\<lparr>window_end := partition_end b1\<rparr> else b1)
      in if sint (window_start b2) < 0 \<or> sint (window_end b2) < 0
         then Inl InvalidWindowBoundary else Inr b2)"

definition UpdateWindowBoundaries :: "WindowExpression \<Rightarrow> ChunkCollection \<Rightarrow> nat
    \<Rightarrow> ChunkCollection \<Rightarrow> ChunkCollection \<Rightarrow> WindowBoundariesState
    \<Rightarrow> error + WindowBoundariesState" where
  "UpdateWindowBoundaries wexpr input row_idx boundary_start_collection
       boundary_end_collection bounds =
     (case update_partition wexpr input row_idx bounds of Inl e \<Rightarrow> Inl e | Inr b1 \<Rightarrow>
      case resolve_start wexpr row_idx boundary_start_collection b1 of Inl e \<Rightarrow> Inl e
       | Inr ws \<Rightarrow>
      case resolve_end wexpr row_idx boundary_end_collection b1 of Inl e \<Rightarrow> Inl e
       | Inr we \<Rightarrow> clamp_window (b1\<lparr>window_start := ws, window_end := we\<rparr>))"

text \<open>The ranking counters of \<open>ComputeWindowExpression\<close> and their update (lines 295 to 303).\<close>

record RankState =
  dense_rank :: "64 word"
  rank_equal :: "64 word"
  rank :: "64 word"

definition update_rank :: "WindowBoundariesState \<Rightarrow> nat \<Rightarrow> RankState \<Rightarrow> RankState" where
  "update_rank bounds row_idx rs =
     (if \<not> is_same_partition bounds \<or> row_idx = 0 then
        \<lparr>dense_rank = 1, rank_equal = 0, rank = 1\<rparr>
      else if \<not> is_peer bounds then
        \<lparr>dense_rank = dense_rank rs + 1, rank_equal = 0, rank = rank rs + rank_equal rs\<rparr>
      else rs)"

text \<open>The result of one row (lines 305 to 349) and the counters after it.\<close>

definition window_result :: "WindowExpression \<Rightarrow> WindowSegmentTree option \<Rightarrow> ChunkCollection
    \<Rightarrow> nat \<Rightarrow> WindowBoundariesState \<Rightarrow> RankState \<Rightarrow> error + (Value \<times> RankState)" where
  "window_result wexpr segment_tree payload_collection row_idx bounds rs =
     (if sint (window_start bounds) \<ge> sint (window_end bounds) then Inr (NullValue SQLNULL, rs)
      else if wtype wexpr = WINDOW_SUM \<or> wtype wexpr = WINDOW_MIN \<or>
              wtype wexpr = WINDOW_MAX \<or> wtype wexpr = WINDOW_AVG then
        (case segment_tree of
           None \<Rightarrow> Inl AssertionFailed
         | Some t \<Rightarrow>
             map_sum id (\<lambda>v. (v, rs))
               (Compute t (unat (window_start bounds)) (unat (window_end bounds))))
      else if wtype wexpr = WINDOW_COUNT_STAR then
        Inr (Numeric (return_type wexpr) (sint (window_end bounds - window_start bounds)), rs)
      else if wtype wexpr = WINDOW_ROW_NUMBER then
        Inr (Numeric (return_type wexpr) (sint (of_nat row_idx - window_start bounds + 1)), rs)
      else if wtype wexpr = WINDOW_RANK_DENSE then
        Inr (Numeric (return_type wexpr) (sint (dense_rank rs)), rs)
      else if wtype wexpr = WINDOW_RANK then
        Inr (Numeric (return_type wexpr) (sint (rank rs)), rs\<lparr>rank_equal := rank_equal rs + 1\<rparr>)
      else if wtype wexpr = WINDOW_FIRST_VALUE then
        map_sum id (\<lambda>v. (v, rs)) (GetValue payload_collection 0 (unat (window_start bounds)))
      else if wtype wexpr = WINDOW_LAST_VALUE then
        map_sum id (\<lambda>v. (v, rs)) (GetValue payload_collection 0 (unat (window_end bounds - 1)))
      else Inl NotImplementedException)"

record SweepState =
  bounds_of :: WindowBoundariesState
  ranks_of :: RankState
  "output" :: "Value list"

text \<open>The body of the main loop for row \<open>row_idx\<close>.\<close>

definition window_row :: "WindowExpression \<Rightarrow> WindowSegmentTree option \<Rightarrow> ChunkCollection
    \<Rightarrow> ChunkCollection \<Rightarrow> ChunkCollection \<Rightarrow> ChunkCollection \<Rightarrow> nat \<Rightarrow> SweepState
    \<Rightarrow> error + SweepState" where
  "window_row wexpr segment_tree sort_collection payload_collection boundary_start_collection
       boundary_end_collection row_idx s =
     (case UpdateWindowBoundaries wexpr sort_collection row_idx boundary_start_collection
             boundary_end_collection (bounds_of s) of
        Inl e \<Rightarrow> Inl e
      | Inr bounds \<Rightarrow>
          (case window_result wexpr segment_tree payload_collection row_idx bounds
                  (update_rank bounds row_idx (ranks_of s)) of
             Inl e \<Rightarrow> Inl e
           | Inr (res, rs) \<Rightarrow>
               Inr \<lparr>bounds_of = bounds, ranks_of = rs, output = output s @ [res]\<rparr>))"

text \<open>
  The main loop after \<open>n\<close> rows.  The counters are not initialised in the source; the
  first row sets them before they are read.
\<close>

fun window_rows :: "WindowExpression \<Rightarrow> WindowSegmentTree option \<Rightarrow> ChunkCollection
    \<Rightarrow> ChunkCollection \<Rightarrow> ChunkCollection \<Rightarrow> ChunkCollection \<Rightarrow> SweepState \<Rightarrow> nat
    \<Rightarrow> error + SweepState" where
  "window_rows wexpr segment_tree sort_collection payload_collection boundary_start_collection
       boundary_end_collection s0 0 = Inr s0"
| "window_rows wexpr segment_tree sort_collection payload_collection boundary_start_collection
       boundary_end_collection s0 (Suc n) =
     (case window_rows wexpr segment_tree sort_collection payload_collection
             boundary_start_collection boundary_end_collection s0 n of
        Inl e \<Rightarrow> Inl e
      | Inr s \<Rightarrow>
          window_row wexpr segment_tree sort_collection payload_collection
            boundary_start_collection boundary_end_collection n s)"

definition build_segment_tree :: "nat \<Rightarrow> WindowExpression \<Rightarrow> ChunkCollection
    \<Rightarrow> error + WindowSegmentTree option" where
  "build_segment_tree fuel wexpr payload_collection =
     (if wtype wexpr = WINDOW_SUM \<or> wtype wexpr = WINDOW_MIN \<or>
         wtype wexpr = WINDOW_MAX \<or> wtype wexpr = WINDOW_AVG then
        (if column_count payload_collection \<noteq> 1 then Inl AssertionFailed
         else case column_values 0 (rows payload_collection) of
                Inl e \<Rightarrow> Inl e
              | Inr payload \<Rightarrow>
                  map_sum id Some
                    (Construct fuel (new_tree (wtype wexpr) (return_type wexpr) 16) payload))
      else Inr None)"

definition initial_sweep :: "Value list \<Rightarrow> SweepState" where
  "initial_sweep first_row =
     \<lparr>bounds_of = initial_bounds\<lparr>row_prev := first_row\<rparr>,
      ranks_of = \<lparr>dense_rank = 0, rank_equal = 0, rank = 0\<rparr>,
      output = []\<rparr>"

text \<open>
  \<open>ComputeWindowExpression\<close> after the sort and the materialisation of the payload and
  of the boundary expressions; \<open>count\<close> is \<open>input.count\<close>.  The result is the column of
  the output for this window expression.
\<close>

definition ComputeWindowExpression :: "nat \<Rightarrow> WindowExpression \<Rightarrow> nat \<Rightarrow> ChunkCollection
    \<Rightarrow> ChunkCollection \<Rightarrow> ChunkCollection \<Rightarrow> ChunkCollection \<Rightarrow> error + Value list" where
  "ComputeWindowExpression fuel wexpr count sort_collection payload_collection
       boundary_start_collection boundary_end_collection =
     (case build_segment_tree fuel wexpr payload_collection of
        Inl e \<Rightarrow> Inl e
      | Inr segment_tree \<Rightarrow>
          (case GetRow sort_collection 0 of
             Inl e \<Rightarrow> Inl e
           | Inr first_row \<Rightarrow>
               map_sum id output
                 (window_rows wexpr segment_tree sort_collection payload_collection
                    boundary_start_collection boundary_end_collection
                    (initial_sweep first_row) count)))"

section \<open>Predicates used in the statements\<close>

text \<open>Every equivalence set of \<open>equivalence_map\<close> has its entry in \<open>constant_values\<close>.\<close>

definition constants_for_every_set :: "FilterCombiner \<Rightarrow> bool" where
  "constants_for_every_set st =
     (\<forall>i \<in> fst ` set (equivalence_map st). map_of (constant_values st) i \<noteq> None)"


text \<open>Expressions and states of the examples.\<close>

definition like_expression :: "nat \<Rightarrow> string \<Rightarrow> Expression" where
  "like_expression c s =
     BoundFunctionExpression ''~~'' [BoundColumnRefExpression c, BoundConstantExpression (StringValue s)]"

definition in_expression :: "nat \<Rightarrow> int list \<Rightarrow> Expression" where
  "in_expression c xs =
     BoundOperatorExpression COMPARE_IN
       (BoundColumnRefExpression c # map (\<lambda>x. BoundConstantExpression (Numeric INTEGER x)) xs)"

definition only_remaining :: "Expression list \<Rightarrow> FilterCombiner" where
  "only_remaining fs = empty_combiner\<lparr>remaining_filters := fs\<rparr>"

definition one_bounded_column :: FilterCombiner where
  "one_bounded_column =
     \<lparr>remaining_filters = [like_expression 1 ''a%''],
      stored_expressions = {BoundColumnRefExpression 0},
      equivalence_set_map = [BoundColumnRefExpression 0 \<mapsto> 0],
      equivalence_map = [(0, [BoundColumnRefExpression 0])],
      constant_values =
        [(0, [\<lparr>constant = Numeric INTEGER 3, comparison_type = COMPARE_GREATERTHAN\<rparr>])],
      set_index = 1\<rparr>"

text \<open>
  Rows \<open>i\<close> to \<open>j\<close> lie in one partition: the partition columns of every row after
  \<open>i\<close> up to \<open>j\<close> equal those of the row before it, by the operator's own comparison.
\<close>

definition same_partition_run :: "WindowExpression \<Rightarrow> ChunkCollection \<Rightarrow> nat \<Rightarrow> nat \<Rightarrow> bool" where
  "same_partition_run wexpr c i j =
     (\<forall>k \<in> {i + 1 .. j}.
        case (GetRow c (k - 1), GetRow c k) of
          (Inr a, Inr b) \<Rightarrow> EqualsSubset a b 0 (partitions wexpr) = Inr True
        | _ \<Rightarrow> False)"

text \<open>What the operator does with a payload column: build the tree with fanout 16, then query it.\<close>

definition segment_tree_result :: "ExpressionType \<Rightarrow> LogicalType \<Rightarrow> Value list \<Rightarrow> nat \<Rightarrow> nat
    \<Rightarrow> error + Value" where
  "segment_tree_result t ptype payload a b =
     (case Construct (length payload) (new_tree t ptype 16) payload of
        Inl e \<Rightarrow> Inl e
      | Inr tree \<Rightarrow> Compute tree a b)"

definition collection_of :: "nat \<Rightarrow> int list list \<Rightarrow> ChunkCollection" where
  "collection_of n rs = \<lparr>column_count = n, rows = map (map (Numeric BIGINT)) rs\<rparr>"

definition window_expression :: "ExpressionType \<Rightarrow> nat \<Rightarrow> nat \<Rightarrow> WindowBoundary
    \<Rightarrow> WindowBoundary \<Rightarrow> WindowExpression" where
  "window_expression t p ord s e =
     \<lparr>wtype = t, return_type = BIGINT, partitions = p, orders = ord, start = s, end = e,
      start_is_scalar = True, end_is_scalar = True\<rparr>"

text \<open>
  \<open>RANK\<close> emits a value on a row, and counts it in \<open>rank_equal\<close>, when the frame of
  the row is not empty.  \<open>peer_rows\<close>: the rows after \<open>g\<close> up to \<open>h\<close> are peers of the row
  before them; \<open>rank_emitted_rows\<close>: \<open>RANK\<close> emits a value on each of the rows \<open>g\<close> to
  \<open>h\<close>.  The first argument is the sweep as a function of the number of rows done.
\<close>

definition emits_rank :: "WindowExpression \<Rightarrow> WindowBoundariesState \<Rightarrow> bool" where
  "emits_rank wexpr b =
     (wtype wexpr = WINDOW_RANK \<and> sint (window_start b) < sint (window_end b))"

definition peer_rows :: "(nat \<Rightarrow> error + SweepState) \<Rightarrow> nat \<Rightarrow> nat \<Rightarrow> bool" where
  "peer_rows state_after g h =
     (\<forall>k \<in> {g + 1 .. h}.
        case state_after (Suc k) of Inr s \<Rightarrow> is_peer (bounds_of s) | Inl e \<Rightarrow> False)"

definition rank_emitted_rows :: "WindowExpression \<Rightarrow> (nat \<Rightarrow> error + SweepState) \<Rightarrow> nat \<Rightarrow> nat
    \<Rightarrow> bool" where
  "rank_emitted_rows wexpr state_after g h =
     (\<forall>k \<in> {g .. h}.
        case state_after (Suc k) of Inr s \<Rightarrow> emits_rank wexpr (bounds_of s) | Inl e \<Rightarrow> False)"

text \<open>
  The sweep of \<open>RANK() OVER (ORDER BY k ...)\<close> over the sorted keys \<open>ks\<close>, with the two
  frame boundaries and the constants of their offsets.
\<close>

definition ranked_rows :: "WindowBoundary \<Rightarrow> WindowBoundary \<Rightarrow> int \<Rightarrow> int \<Rightarrow> int list \<Rightarrow> nat
    \<Rightarrow> error + SweepState" where
  "ranked_rows s e preceding following ks =
     window_rows (window_expression WINDOW_RANK 0 1 s e) None
       (collection_of 1 (map (\<lambda>k. [k]) ks)) empty_collection
       (collection_of 1 [[preceding]]) (collection_of 1 [[following]])
       (initial_sweep [Numeric BIGINT (hd ks)])"







text \<open>
  What a state of the combiner says about an assignment: every remaining filter holds,
  every expression of an equivalence set meets every constant comparison of the set,
  the expressions of one set have the same value, and \<open>set_index\<close> is above every
  index in use.
\<close>

definition members :: "FilterCombiner \<Rightarrow> nat \<Rightarrow> Expression set" where
  "members st i =
     {e. equivalence_set_map st e = Some i} \<union>
     (case map_of (equivalence_map st) i of None \<Rightarrow> {} | Some bucket \<Rightarrow> set bucket)"


definition same_value :: "Value \<Rightarrow> Value \<Rightarrow> bool" where
  "same_value a b = (a = b \<or> value_eq a b)"






section \<open>Properties\<close>

lemma less_family_vs_greater_family:
  assumes "IsLessThan (comparison_type l)" and "IsGreaterThan (comparison_type r)"
  shows "CompareValueInformation l r =
           (if value_ge (constant l) (constant r) then Inr PRUNE_NOTHING
            else Inr UNSATISFIABLE_CONDITION)"
  using assms
  by (subst CompareValueInformation.simps) (auto simp: IsLessThan_def IsGreaterThan_def CompareLessGreater_def)

lemma greater_family_vs_less_family:
  assumes "IsLessThan (comparison_type l)" and "IsGreaterThan (comparison_type r)"
  shows "CompareValueInformation r l =
           (if value_ge (constant l) (constant r) then Inr PRUNE_NOTHING
            else Inr UNSATISFIABLE_CONDITION)"
  using assms
  by (subst CompareValueInformation.simps)
     (auto simp: less_family_vs_greater_family IsLessThan_def IsGreaterThan_def)

lemma not_value_ge_iff:
  assumes "comparable u l"
  shows "(\<not> value_ge u l) = value_gt l u"
  using assms
  by (auto simp: value_ge_def value_gt_def value_le_def value_lt_def value_eq_def comparable_def)

text \<open>
  C3, as amended.  For two constant bounds on the same equivalence set, one from the
  \<open><\<close> family with constant \<open>U\<close> and one from the \<open>>\<close> family with constant \<open>L\<close>
  (non-null constants of the same kind), \<open>CompareValueInformation\<close> answers
  \<open>UNSATISFIABLE_CONDITION\<close> exactly when \<open>L > U\<close>, in either order of the operands, and
  \<open>PRUNE_NOTHING\<close> otherwise; strictness of the comparisons plays no part.
\<close>

theorem bounds_from_both_families:
  assumes "IsLessThan (comparison_type upper)"
    and "IsGreaterThan (comparison_type lower)"
    and "comparable (constant upper) (constant lower)"
  shows "CompareValueInformation upper lower =
           (if value_gt (constant lower) (constant upper) then Inr UNSATISFIABLE_CONDITION
            else Inr PRUNE_NOTHING) \<and>
         CompareValueInformation lower upper =
           (if value_gt (constant lower) (constant upper) then Inr UNSATISFIABLE_CONDITION
            else Inr PRUNE_NOTHING)"
proof -
  have "value_gt (constant lower) (constant upper) = (\<not> value_ge (constant upper) (constant lower))"
    using not_value_ge_iff [OF assms(3)] by simp
  then show ?thesis
    using assms(1,2) by (simp add: less_family_vs_greater_family greater_family_vs_less_family)
qed

theorem bounds_from_both_families_witness:
  "IsLessThan COMPARE_LESSTHANOREQUALTO \<and> IsGreaterThan COMPARE_GREATERTHAN \<and>
   comparable (Numeric INTEGER 3) (Numeric INTEGER 7) \<and>
   CompareValueInformation
     \<lparr>constant = Numeric INTEGER 3, comparison_type = COMPARE_LESSTHANOREQUALTO\<rparr>
     \<lparr>constant = Numeric INTEGER 7, comparison_type = COMPARE_GREATERTHAN\<rparr>
     = Inr UNSATISFIABLE_CONDITION \<and>
   CompareValueInformation
     \<lparr>constant = Numeric INTEGER 7, comparison_type = COMPARE_GREATERTHAN\<rparr>
     \<lparr>constant = Numeric INTEGER 3, comparison_type = COMPARE_LESSTHANOREQUALTO\<rparr>
     = Inr UNSATISFIABLE_CONDITION"
  using bounds_from_both_families
    [of "\<lparr>constant = Numeric INTEGER 3, comparison_type = COMPARE_LESSTHANOREQUALTO\<rparr>"
        "\<lparr>constant = Numeric INTEGER 7, comparison_type = COMPARE_GREATERTHAN\<rparr>"]
  by (simp add: IsLessThan_def IsGreaterThan_def comparable_def Numeric_def value_gt_def value_lt_def)

theorem equal_strict_bounds_counterexample:
  "value_eq (Numeric INTEGER 5) (Numeric INTEGER 5) \<and>
   CompareValueInformation
     \<lparr>constant = Numeric INTEGER 5, comparison_type = COMPARE_LESSTHAN\<rparr>
     \<lparr>constant = Numeric INTEGER 5, comparison_type = COMPARE_GREATERTHAN\<rparr>
     = Inr PRUNE_NOTHING \<and>
   CompareValueInformation
     \<lparr>constant = Numeric INTEGER 5, comparison_type = COMPARE_GREATERTHAN\<rparr>
     \<lparr>constant = Numeric INTEGER 5, comparison_type = COMPARE_LESSTHAN\<rparr>
     = Inr PRUNE_NOTHING"
  by (simp add: less_family_vs_greater_family greater_family_vs_less_family
      IsLessThan_def IsGreaterThan_def value_ge_def value_le_def value_eq_def value_lt_def
      comparable_def Numeric_def)

lemma like_leading_wildcard:
  assumes "str_value v \<noteq> []" and "is_wildcard (hd (str_value v))"
  shows "scan_filter column_ids
           (BoundFunctionExpression ''~~''
              (BoundColumnRefExpression c # BoundConstantExpression v # rest)) = Inr Break"
  using assms by (simp add: scan_filter_def like_filter_def column_and_constant_def)

text \<open>
  C10.  When the scan of \<open>remaining_filters\<close> in \<open>GenerateTableScanFilters\<close> stands at a
  \<open>~~\<close> filter on a column reference whose constant starts with \<open>%\<close> or \<open>_\<close>, the loop
  is left at once: the table filters are those collected before, the remaining filters
  are untouched, and no filter after it is looked at.
\<close>

theorem leading_wildcard_ends_scan:
  assumes "rem_fil_idx < length filters"
    and "filters ! rem_fil_idx =
           BoundFunctionExpression ''~~''
             (BoundColumnRefExpression c # BoundConstantExpression v # rest)"
    and "str_value v \<noteq> []" and "is_wildcard (hd (str_value v))"
  shows "scan_remaining column_ids filters rem_fil_idx tableFilters = Inr (tableFilters, filters)"
  using assms
  by (subst scan_remaining.simps) (simp add: like_leading_wildcard)

theorem leading_wildcard_ends_scan_witness:
  "GenerateTableScanFilters [0, 1]
     (only_remaining [like_expression 0 ''%x'', like_expression 0 ''abc'',
                      BoundFunctionExpression ''prefix''
                        [BoundColumnRefExpression 0, BoundConstantExpression (StringValue ''ab'')],
                      in_expression 1 [1, 2, 3]]) =
   Inr ([], only_remaining [like_expression 0 ''%x'', like_expression 0 ''abc'',
                      BoundFunctionExpression ''prefix''
                        [BoundColumnRefExpression 0, BoundConstantExpression (StringValue ''ab'')],
                      in_expression 1 [1, 2, 3]])"
  using leading_wildcard_ends_scan
    [of 0 "[like_expression 0 ''%x'', like_expression 0 ''abc'',
            BoundFunctionExpression ''prefix''
              [BoundColumnRefExpression 0, BoundConstantExpression (StringValue ''ab'')],
            in_expression 1 [1, 2, 3]]" 0 "StringValue ''%x''" "[]" "[0, 1]" "[]"]
  by (simp add: GenerateTableScanFilters_def only_remaining_def empty_combiner_def
      like_expression_def StringValue_def is_wildcard_def)






lemma set_filters_total:
  assumes "\<forall>i \<in> fst ` set em. map_of cv i \<noteq> None"
  shows "\<exists>fs. set_filters cv em = Inr fs"
  using assms
proof (induction em)
  case Nil
  then show ?case by simp
next
  case (Cons p em)
  obtain i entries where p: "p = (i, entries)" by (cases p)
  from Cons.prems p obtain cl where cl: "map_of cv i = Some cl" by auto
  from Cons obtain fs where "set_filters cv em = Inr fs" by auto
  with p cl show ?case by simp
qed

lemma scan_remaining_Nil: "scan_remaining column_ids [] 0 tfs = Inr (tfs, [])"
  by (subst scan_remaining.simps) simp

text \<open>
  C9.  \<open>HasFilters\<close> runs \<open>GenerateFilters\<close>: after it the remaining filters, the stored
  expressions, both equivalence maps and the constant values are empty, and
  \<open>GenerateFilters\<close> and \<open>GenerateTableScanFilters\<close> emit nothing on the state it leaves.
\<close>

theorem HasFilters_clears_combiner:
  assumes "constants_for_every_set st"
  shows "\<exists>b st'. HasFilters st = Inr (b, st') \<and>
           remaining_filters st' = [] \<and> stored_expressions st' = {} \<and>
           equivalence_set_map st' = Map.empty \<and> equivalence_map st' = [] \<and>
           constant_values st' = [] \<and>
           GenerateFilters st' = Inr ([], st') \<and>
           (\<forall>column_ids. GenerateTableScanFilters column_ids st' = Inr ([], st'))"
proof -
  from assms obtain fs where "set_filters (constant_values st) (equivalence_map st) = Inr fs"
    using set_filters_total unfolding constants_for_every_set_def by blast
  then show ?thesis
    by (simp add: HasFilters_def GenerateFilters_def GenerateTableScanFilters_def
        scan_remaining_Nil)
qed

theorem HasFilters_clears_combiner_witness:
  "constants_for_every_set one_bounded_column \<and>
   (\<exists>st'. HasFilters one_bounded_column = Inr (True, st') \<and>
      remaining_filters st' = [] \<and> stored_expressions st' = {} \<and>
      equivalence_set_map st' = Map.empty \<and> equivalence_map st' = [] \<and>
      constant_values st' = [] \<and>
      GenerateFilters st' = Inr ([], st') \<and>
      GenerateTableScanFilters [0, 1] st' = Inr ([], st'))"
proof -
  have wf: "constants_for_every_set one_bounded_column"
    by (simp add: constants_for_every_set_def one_bounded_column_def)
  from HasFilters_clears_combiner [OF wf] obtain b st' where
    h: "HasFilters one_bounded_column = Inr (b, st')"
      "remaining_filters st' = []" "stored_expressions st' = {}"
      "equivalence_set_map st' = Map.empty" "equivalence_map st' = []"
      "constant_values st' = []" "GenerateFilters st' = Inr ([], st')"
      "\<forall>column_ids. GenerateTableScanFilters column_ids st' = Inr ([], st')"
    by blast
  have "b = True"
    using h(1) by (auto simp: HasFilters_def GenerateFilters_def one_bounded_column_def
        split: sum.splits)
  with wf h show ?thesis by blast
qed















text \<open>
  In general: when the scan stands at an \<open>IN\<close> on the row-id column, the loop is left
  with the table filters collected before and the remaining filters untouched.
\<close>

lemma row_id_in_ends_scan:
  assumes "rem_fil_idx < length filters"
    and "filters ! rem_fil_idx =
           BoundOperatorExpression COMPARE_IN (BoundColumnRefExpression c # child # rest)"
    and "c < length column_ids" and "column_ids ! c = COLUMN_IDENTIFIER_ROW_ID"
  shows "scan_remaining column_ids filters rem_fil_idx tableFilters = Inr (tableFilters, filters)"
  using assms
  by (subst scan_remaining.simps) (simp add: scan_filter_def in_filter_def column_id_def)


lemma map_sum_id_Inr: "(map_sum id f x = Inr y) = (\<exists>z. x = Inr z \<and> y = f z)"
  by (cases x) auto

lemma window_rows_Suc:
  assumes "window_rows wexpr tree sc pc bsc bec s0 (Suc n) = Inr s'"
  shows "\<exists>s. window_rows wexpr tree sc pc bsc bec s0 n = Inr s \<and>
             window_row wexpr tree sc pc bsc bec n s = Inr s'"
  using assms by (simp split: sum.splits)

lemma window_rows_earlier:
  assumes "window_rows wexpr tree sc pc bsc bec s0 n = Inr s" and "m \<le> n"
  shows "\<exists>sm. window_rows wexpr tree sc pc bsc bec s0 m = Inr sm"
  using assms
proof (induction n arbitrary: s)
  case 0
  then show ?case by simp
next
  case (Suc n)
  show ?case
  proof (cases "m = Suc n")
    case True
    with Suc.prems show ?thesis by blast
  next
    case False
    with Suc.prems have "m \<le> n" by simp
    moreover from window_rows_Suc [OF Suc.prems(1)] obtain s1 where
      "window_rows wexpr tree sc pc bsc bec s0 n = Inr s1" by blast
    ultimately show ?thesis using Suc.IH by blast
  qed
qed

lemma window_row_output:
  assumes "window_row wexpr tree sc pc bsc bec n s = Inr s'"
  shows "\<exists>res. output s' = output s @ [res]"
  using assms by (auto simp: window_row_def split: sum.splits)

lemma window_rows_length:
  assumes "window_rows wexpr tree sc pc bsc bec s0 n = Inr s"
  shows "length (output s) = length (output s0) + n"
  using assms
proof (induction n arbitrary: s)
  case 0
  then show ?case by simp
next
  case (Suc n)
  from window_rows_Suc [OF Suc.prems] obtain s1 where
    s1: "window_rows wexpr tree sc pc bsc bec s0 n = Inr s1"
    and row: "window_row wexpr tree sc pc bsc bec n s1 = Inr s" by blast
  from window_row_output [OF row] Suc.IH [OF s1] show ?case by auto
qed

lemma window_rows_output:
  assumes "window_rows wexpr tree sc pc bsc bec s0 n = Inr s"
    and "window_rows wexpr tree sc pc bsc bec s0 m = Inr sm" and "m \<le> n"
  shows "take (length (output sm)) (output s) = output sm"
  using assms
proof (induction n arbitrary: s)
  case 0
  then show ?case by simp
next
  case (Suc n)
  from window_rows_Suc [OF Suc.prems(1)] obtain s1 where
    s1: "window_rows wexpr tree sc pc bsc bec s0 n = Inr s1"
    and row: "window_row wexpr tree sc pc bsc bec n s1 = Inr s" by blast
  from window_row_output [OF row] obtain res where res: "output s = output s1 @ [res]" ..
  show ?case
  proof (cases "m = Suc n")
    case True
    with Suc.prems(1,2) have "sm = s" by simp
    then show ?thesis by simp
  next
    case False
    with Suc.prems have mn: "m \<le> n" by simp
    have "length (output sm) \<le> length (output s1)"
      using window_rows_length [OF s1] window_rows_length [OF Suc.prems(2)] mn by simp
    with Suc.IH [OF s1 Suc.prems(2) mn] res show ?thesis by simp
  qed
qed

lemma clamp_window_fields:
  assumes "clamp_window b = Inr b'"
  shows "partition_start b' = partition_start b \<and> partition_end b' = partition_end b \<and>
         is_same_partition b' = is_same_partition b \<and> is_peer b' = is_peer b \<and>
         row_prev b' = row_prev b \<and> peer_start b' = peer_start b"
  using assms by (auto simp: clamp_window_def Let_def split: if_splits)

lemma clamp_window_whole_partition:
  assumes "clamp_window b = Inr b'"
    and "window_start b = partition_start b" and "window_end b = partition_end b"
  shows "window_start b' = partition_start b \<and> window_end b' = partition_end b"
  using assms by (auto simp: clamp_window_def Let_def split: if_splits)

lemma update_partition_fields:
  assumes "update_partition wexpr input k b = Inr b'"
  shows "\<exists>row_cur same. GetRow input k = Inr row_cur \<and> row_prev b' = row_cur \<and>
           EqualsSubset (row_prev b) row_cur 0 (partitions wexpr) = Inr same \<and>
           is_same_partition b' = same \<and>
           (same \<and> k \<noteq> 0 \<longrightarrow> partition_start b' = partition_start b \<and>
                                  partition_end b' = partition_end b)"
  using assms
  by (auto simp: update_partition_def Let_def map_sum_id_Inr split: sum.splits if_splits)

lemma UpdateWindowBoundaries_fields:
  assumes "UpdateWindowBoundaries wexpr input k bsc bec b = Inr b'"
  shows "\<exists>row_cur same. GetRow input k = Inr row_cur \<and> row_prev b' = row_cur \<and>
           EqualsSubset (row_prev b) row_cur 0 (partitions wexpr) = Inr same \<and>
           is_same_partition b' = same \<and>
           (same \<and> k \<noteq> 0 \<longrightarrow> partition_start b' = partition_start b \<and>
                                  partition_end b' = partition_end b)"
proof -
  from assms obtain b1 ws we where
    b1: "update_partition wexpr input k b = Inr b1"
    and cl: "clamp_window (b1\<lparr>window_start := ws, window_end := we\<rparr>) = Inr b'"
    by (auto simp: UpdateWindowBoundaries_def split: sum.splits)
  from clamp_window_fields [OF cl] update_partition_fields [OF b1] show ?thesis
    by auto
qed

lemma UpdateWindowBoundaries_unbounded:
  assumes "UpdateWindowBoundaries wexpr input k bsc bec b = Inr b'"
    and "start wexpr = UNBOUNDED_PRECEDING" and "end wexpr = UNBOUNDED_FOLLOWING"
  shows "window_start b' = partition_start b' \<and> window_end b' = partition_end b'"
proof -
  from assms obtain b1 where
    b1: "update_partition wexpr input k b = Inr b1"
    and cl: "clamp_window (b1\<lparr>window_start := partition_start b1,
                                window_end := partition_end b1\<rparr>) = Inr b'"
    by (auto simp: UpdateWindowBoundaries_def resolve_start_def resolve_end_def
        split: sum.splits)
  from clamp_window_whole_partition [OF cl] clamp_window_fields [OF cl] show ?thesis
    by simp
qed

lemma window_result_of_frame:
  assumes "window_result wexpr tree pc i b rs = Inr (v, rs1)"
    and "window_result wexpr tree pc j b' rs' = Inr (v', rs1')"
    and "window_start b = window_start b'" and "window_end b = window_end b'"
    and "wtype wexpr \<notin> {WINDOW_ROW_NUMBER, WINDOW_RANK, WINDOW_RANK_DENSE}"
  shows "v = v'"
  using assms
  by (auto simp: window_result_def map_sum_id_Inr split: if_splits option.splits)

lemma window_row_parts:
  assumes "window_row wexpr tree sc pc bsc bec k s = Inr s'"
  shows "\<exists>res. UpdateWindowBoundaries wexpr sc k bsc bec (bounds_of s) = Inr (bounds_of s') \<and>
           window_result wexpr tree pc k (bounds_of s')
             (update_rank (bounds_of s') k (ranks_of s)) = Inr (res, ranks_of s') \<and>
           output s' = output s @ [res]"
  using assms by (auto simp: window_row_def split: sum.splits)

lemma same_partition_run_shorter:
  assumes "same_partition_run wexpr c i (Suc j)"
  shows "same_partition_run wexpr c i j"
  using assms by (auto simp: same_partition_run_def)

lemma partition_bounds_along_run:
  assumes "window_rows wexpr tree sc pc bsc bec s0 (Suc j) = Inr sj"
    and "window_rows wexpr tree sc pc bsc bec s0 (Suc i) = Inr si"
    and "i \<le> j" and "same_partition_run wexpr sc i j"
  shows "partition_start (bounds_of sj) = partition_start (bounds_of si) \<and>
         partition_end (bounds_of sj) = partition_end (bounds_of si)"
  using assms
proof (induction j arbitrary: sj)
  case 0
  then show ?case by simp
next
  case (Suc j)
  show ?case
  proof (cases "i = Suc j")
    case True
    with Suc.prems(1,2) show ?thesis by simp
  next
    case False
    with Suc.prems(3) have ij: "i \<le> j" by simp
    from window_rows_Suc [OF Suc.prems(1)] obtain s1 where
      s1: "window_rows wexpr tree sc pc bsc bec s0 (Suc j) = Inr s1"
      and row: "window_row wexpr tree sc pc bsc bec (Suc j) s1 = Inr sj" by blast
    have ih: "partition_start (bounds_of s1) = partition_start (bounds_of si) \<and>
              partition_end (bounds_of s1) = partition_end (bounds_of si)"
      using Suc.IH [OF s1 Suc.prems(2) ij same_partition_run_shorter [OF Suc.prems(4)]] .
    from window_rows_Suc [OF s1] obtain s2 where
      row1: "window_row wexpr tree sc pc bsc bec j s2 = Inr s1" by blast
    from window_row_parts [OF row1] UpdateWindowBoundaries_fields obtain a where
      a: "GetRow sc j = Inr a" "row_prev (bounds_of s1) = a" by blast
    from window_row_parts [OF row] have
      "UpdateWindowBoundaries wexpr sc (Suc j) bsc bec (bounds_of s1) = Inr (bounds_of sj)"
      by blast
    from UpdateWindowBoundaries_fields [OF this] obtain b same where
      b: "GetRow sc (Suc j) = Inr b"
         "EqualsSubset (row_prev (bounds_of s1)) b 0 (partitions wexpr) = Inr same"
         "same \<longrightarrow> partition_start (bounds_of sj) = partition_start (bounds_of s1) \<and>
                  partition_end (bounds_of sj) = partition_end (bounds_of s1)"
      by auto
    have mem: "Suc j \<in> {i + 1 .. Suc j}" using Suc.prems(3) False by simp
    from Suc.prems(4) [unfolded same_partition_run_def, rule_format, OF mem] have
      "\<exists>a b. GetRow sc j = Inr a \<and> GetRow sc (Suc j) = Inr b \<and>
         EqualsSubset a b 0 (partitions wexpr) = Inr True"
      by (auto split: sum.splits)
    with a b have "same" by auto
    with b ih show ?thesis by simp
  qed
qed

lemma row_result:
  assumes "window_rows wexpr tree sc pc bsc bec s0 n = Inr s"
    and "output s0 = []" and "i < n"
  shows "\<exists>si rs. window_rows wexpr tree sc pc bsc bec s0 (Suc i) = Inr si \<and>
           window_result wexpr tree pc i (bounds_of si) rs = Inr (output s ! i, ranks_of si)"
proof -
  from assms(3) have le: "Suc i \<le> n" by simp
  from window_rows_earlier [OF assms(1) le] obtain si where
    si: "window_rows wexpr tree sc pc bsc bec s0 (Suc i) = Inr si" ..
  from window_rows_Suc [OF si] obtain s1 where
    s1: "window_rows wexpr tree sc pc bsc bec s0 i = Inr s1"
    and row: "window_row wexpr tree sc pc bsc bec i s1 = Inr si" by blast
  from window_row_parts [OF row] obtain res where
    res: "window_result wexpr tree pc i (bounds_of si)
            (update_rank (bounds_of si) i (ranks_of s1)) = Inr (res, ranks_of si)"
      "output si = output s1 @ [res]" by blast
  have l1: "length (output s1) = i"
    using window_rows_length [OF s1] assms(2) by simp
  have "take (length (output si)) (output s) = output si"
    by (rule window_rows_output [OF assms(1) si le])
  then have "output s ! i = output si ! i"
    using res(2) l1 by (metis length_append_singleton lessI nth_take)
  also have "\<dots> = res" using res(2) l1 by (metis nth_append_length)
  finally show ?thesis using si res(1) by blast
qed

text \<open>
  C5.  When the operator completes on a window expression with the frame
  \<open>UNBOUNDED PRECEDING .. UNBOUNDED FOLLOWING\<close> whose function is an aggregate or a value
  function (not a row number or a rank), two rows of the same partition have the same
  result.
\<close>

theorem unbounded_frame_same_value_in_partition:
  assumes "ComputeWindowExpression fuel wexpr count sc pc bsc bec = Inr out"
    and "start wexpr = UNBOUNDED_PRECEDING" and "end wexpr = UNBOUNDED_FOLLOWING"
    and "wtype wexpr \<notin> {WINDOW_ROW_NUMBER, WINDOW_RANK, WINDOW_RANK_DENSE}"
    and "i \<le> j" and "j < count"
    and "same_partition_run wexpr sc i j"
  shows "out ! i = out ! j"
proof -
  from assms(1) obtain tree first_row s where
    run: "window_rows wexpr tree sc pc bsc bec (initial_sweep first_row) count = Inr s"
    and out: "out = output s"
    by (auto simp: ComputeWindowExpression_def map_sum_id_Inr split: sum.splits)
  have e: "output (initial_sweep first_row) = []" by (simp add: initial_sweep_def)
  from assms(5,6) have ic: "i < count" by simp
  from row_result [OF run e ic] obtain si rsi where
    si: "window_rows wexpr tree sc pc bsc bec (initial_sweep first_row) (Suc i) = Inr si"
    and ri: "window_result wexpr tree pc i (bounds_of si) rsi = Inr (output s ! i, ranks_of si)"
    by blast
  from row_result [OF run e assms(6)] obtain sj rsj where
    sj: "window_rows wexpr tree sc pc bsc bec (initial_sweep first_row) (Suc j) = Inr sj"
    and rj: "window_result wexpr tree pc j (bounds_of sj) rsj = Inr (output s ! j, ranks_of sj)"
    by blast
  have pb: "partition_start (bounds_of sj) = partition_start (bounds_of si) \<and>
            partition_end (bounds_of sj) = partition_end (bounds_of si)"
    by (rule partition_bounds_along_run [OF sj si assms(5,7)])
  from window_rows_Suc [OF si] window_row_parts obtain bi where
    "UpdateWindowBoundaries wexpr sc i bsc bec bi = Inr (bounds_of si)" by blast
  from UpdateWindowBoundaries_unbounded [OF this assms(2,3)] have wi:
    "window_start (bounds_of si) = partition_start (bounds_of si)"
    "window_end (bounds_of si) = partition_end (bounds_of si)" by simp_all
  from window_rows_Suc [OF sj] window_row_parts obtain bj where
    "UpdateWindowBoundaries wexpr sc j bsc bec bj = Inr (bounds_of sj)" by blast
  from UpdateWindowBoundaries_unbounded [OF this assms(2,3)] have wj:
    "window_start (bounds_of sj) = partition_start (bounds_of sj)"
    "window_end (bounds_of sj) = partition_end (bounds_of sj)" by simp_all
  have "output s ! i = output s ! j"
    using window_result_of_frame [OF ri rj _ _ assms(4)] wi wj pb by simp
  with out show ?thesis by simp
qed

theorem unbounded_frame_same_value_in_partition_witness:
  "ComputeWindowExpression 1
     (window_expression WINDOW_SUM 1 0 UNBOUNDED_PRECEDING UNBOUNDED_FOLLOWING) 4
     (collection_of 1 [[1], [1], [1], [2]]) (collection_of 1 [[10], [20], [20], [5]])
     empty_collection empty_collection =
     Inr (map (Numeric BIGINT) [50, 50, 50, 5]) \<and>
   same_partition_run
     (window_expression WINDOW_SUM 1 0 UNBOUNDED_PRECEDING UNBOUNDED_FOLLOWING)
     (collection_of 1 [[1], [1], [1], [2]]) 0 2 \<and>
   map (Numeric BIGINT) [50, 50, 50, 5] ! 0 = map (Numeric BIGINT) [50, 50, 50, 5] ! 2"
proof -
  have run: "ComputeWindowExpression 1
     (window_expression WINDOW_SUM 1 0 UNBOUNDED_PRECEDING UNBOUNDED_FOLLOWING) 4
     (collection_of 1 [[1], [1], [1], [2]]) (collection_of 1 [[10], [20], [20], [5]])
     empty_collection empty_collection =
     Inr (map (Numeric BIGINT) [50, 50, 50, 5])"
    by code_simp
  have same: "same_partition_run
     (window_expression WINDOW_SUM 1 0 UNBOUNDED_PRECEDING UNBOUNDED_FOLLOWING)
     (collection_of 1 [[1], [1], [1], [2]]) 0 2"
    by code_simp
  have "map (Numeric BIGINT) [50, 50, 50, 5] ! 0 = map (Numeric BIGINT) [50, 50, 50, 5] ! 2"
    by (rule unbounded_frame_same_value_in_partition [OF run _ _ _ _ _ same])
       (simp_all add: window_expression_def)
  with run same show ?thesis by simp
qed

lemma sint_nonneg_iff:
  fixes w :: "64 word"
  shows "(0 \<le> sint w) = (uint w < 2 ^ 63)"
proof -
  have b: "uint w < 2 ^ 64" using uint_lt2p [of w] by simp
  have n: "0 \<le> uint w" by simp
  have "(0 \<le> sint w) = (\<not> bit (uint w) 63)"
    by (simp add: sint_uint)
  also have "\<dots> = (\<not> odd (uint w div 2 ^ 63))"
    by (simp add: bit_iff_odd)
  also have "\<dots> = (uint w < 2 ^ 63)"
  proof (cases "uint w < 2 ^ 63")
    case True
    then have "uint w div 2 ^ 63 = 0" using n by simp
    with True show ?thesis by simp
  next
    case False
    then have "uint w div 2 ^ 63 = 1" using b by simp
    with False show ?thesis by simp
  qed
  finally show ?thesis .
qed

lemma below_nonnegative_is_nonnegative:
  fixes we pe :: "64 word"
  assumes "we \<le> pe" and "0 \<le> sint pe"
  shows "0 \<le> sint we"
  using assms by (simp add: sint_nonneg_iff word_le_def)

lemma clamp_window_accepts:
  assumes "0 \<le> sint (partition_start b)" and "0 \<le> sint (partition_end b)"
  shows "\<exists>b'. clamp_window b = Inr b'"
proof -
  have "\<not> window_end b > partition_end b \<Longrightarrow> 0 \<le> sint (window_end b)"
    using below_nonnegative_is_nonnegative [OF _ assms(2)] by simp
  with assms show ?thesis
    by (auto simp: clamp_window_def Let_def)
qed

text \<open>
  C6.  For a frame that ends \<open>10 PRECEDING\<close>, the end resolved at row 2 is \<open>- 7\<close>.  The
  clamp of \<open>window_end\<close> compares it with \<open>partition_end\<close> as unsigned, takes it for
  greater and raises it to the partition end 5: no \<open>InvalidWindowBoundary\<close> is raised,
  and \<open>COUNT( * )\<close> over the empty frame counts the five rows of the partition.
\<close>

theorem negative_window_end_becomes_partition_end:
  "resolve_end (window_expression WINDOW_COUNT_STAR 0 1 UNBOUNDED_PRECEDING EXPR_PRECEDING) 2
     (collection_of 1 [[10]]) (initial_bounds\<lparr>partition_end := 5\<rparr>) = Inr (- 7) \<and>
   sint (- 7 :: 64 word) < 0 \<and>
   clamp_window (initial_bounds\<lparr>partition_end := 5, window_start := 0, window_end := - 7\<rparr>) =
     Inr (initial_bounds\<lparr>partition_end := 5, window_start := 0, window_end := 5\<rparr>) \<and>
   ComputeWindowExpression 0
     (window_expression WINDOW_COUNT_STAR 0 1 UNBOUNDED_PRECEDING EXPR_PRECEDING) 5
     (collection_of 1 [[1], [2], [3], [4], [5]]) empty_collection
     empty_collection (collection_of 1 [[10]]) =
     Inr (map (Numeric BIGINT) [5, 5, 5, 5, 5])"
  by code_simp

text \<open>
  C1.  The segment tree against the naive accumulation of the same range.  For \<open>AVG\<close>
  over sixteen zeros and a 17, the tree averages the average of the first group with the
  seventeenth value: 8 instead of 1.  For \<open>SUM\<close> over 257 ones, the first node of the
  second level also holds the last, short group of the first level (the aggregate is not
  initialised after that group): the sum of the first 256 values comes out as 257.
\<close>

theorem segment_tree_differs_from_naive_accumulation:
  "segment_tree_result WINDOW_AVG BIGINT (map (Numeric BIGINT) (replicate 16 0 @ [17])) 0 17 =
     Inr (Numeric BIGINT 8) \<and>
   naive_accumulation WINDOW_AVG BIGINT (map (Numeric BIGINT) (replicate 16 0 @ [17])) 0 17 =
     Inr (Numeric BIGINT 1) \<and>
   segment_tree_result WINDOW_SUM BIGINT (map (Numeric BIGINT) (replicate 257 1)) 0 256 =
     Inr (Numeric BIGINT 257) \<and>
   naive_accumulation WINDOW_SUM BIGINT (map (Numeric BIGINT) (replicate 257 1)) 0 256 =
     Inr (Numeric BIGINT 256)"
  by code_simp


lemma update_partition_peer:
  assumes "update_partition wexpr input k b = Inr b'"
  shows "is_peer b' \<longrightarrow> is_same_partition b'"
  using assms
  by (auto simp: update_partition_def Let_def map_sum_id_Inr split: sum.splits if_splits)

lemma UpdateWindowBoundaries_peer:
  assumes "UpdateWindowBoundaries wexpr input k bsc bec b = Inr b'"
  shows "is_peer b' \<longrightarrow> is_same_partition b'"
proof -
  from assms obtain b1 ws we where
    b1: "update_partition wexpr input k b = Inr b1"
    and cl: "clamp_window (b1\<lparr>window_start := ws, window_end := we\<rparr>) = Inr b'"
    by (auto simp: UpdateWindowBoundaries_def split: sum.splits)
  from clamp_window_fields [OF cl] update_partition_peer [OF b1] show ?thesis
    by simp
qed

lemma window_result_ranks:
  assumes "window_result wexpr tree pc n b u = Inr (res, r')"
  shows "r' = (if emits_rank wexpr b then u\<lparr>rank_equal := rank_equal u + 1\<rparr> else u) \<and>
         (emits_rank wexpr b \<longrightarrow> res = Numeric (return_type wexpr) (sint (rank u))) \<and>
         (wtype wexpr = WINDOW_RANK_DENSE \<and> sint (window_start b) < sint (window_end b) \<longrightarrow>
            res = Numeric (return_type wexpr) (sint (dense_rank u))) \<and>
         (\<not> sint (window_start b) < sint (window_end b) \<longrightarrow> res = NullValue SQLNULL)"
  using assms
  by (auto simp: window_result_def emits_rank_def map_sum_id_Inr split: if_splits option.splits)

lemma rank_step:
  assumes "window_rows wexpr tree sc pc bsc bec s0 (Suc n) = Inr s'"
    and "window_rows wexpr tree sc pc bsc bec s0 n = Inr s"
  shows "output s' = output s @ [last (output s')] \<and>
         (is_peer (bounds_of s') \<longrightarrow> is_same_partition (bounds_of s')) \<and>
         ranks_of s' =
           (if emits_rank wexpr (bounds_of s')
            then (update_rank (bounds_of s') n (ranks_of s))
                   \<lparr>rank_equal := rank_equal (update_rank (bounds_of s') n (ranks_of s)) + 1\<rparr>
            else update_rank (bounds_of s') n (ranks_of s)) \<and>
         (emits_rank wexpr (bounds_of s') \<longrightarrow>
            last (output s') = Numeric (return_type wexpr) (sint (rank (ranks_of s')))) \<and>
         (wtype wexpr = WINDOW_RANK_DENSE \<and>
          sint (window_start (bounds_of s')) < sint (window_end (bounds_of s')) \<longrightarrow>
            last (output s') = Numeric (return_type wexpr) (sint (dense_rank (ranks_of s'))))"
proof -
  from assms have row: "window_row wexpr tree sc pc bsc bec n s = Inr s'" by simp
  from window_row_parts [OF row] obtain res where
    u: "UpdateWindowBoundaries wexpr sc n bsc bec (bounds_of s) = Inr (bounds_of s')"
    and r: "window_result wexpr tree pc n (bounds_of s')
              (update_rank (bounds_of s') n (ranks_of s)) = Inr (res, ranks_of s')"
    and out: "output s' = output s @ [res]" by blast
  from window_result_ranks [OF r] UpdateWindowBoundaries_peer [OF u] out show ?thesis
    by (auto simp: emits_rank_def)
qed

lemma peer_rows_shorter:
  assumes "peer_rows f g (Suc h)"
  shows "peer_rows f g h"
  using assms by (auto simp: peer_rows_def)

lemma rank_emitted_rows_shorter:
  assumes "rank_emitted_rows wexpr f g (Suc h)"
  shows "rank_emitted_rows wexpr f g h"
  using assms by (auto simp: rank_emitted_rows_def)

lemma peers_keep_ranks:
  assumes "window_rows wexpr tree sc pc bsc bec s0 (Suc h) = Inr sh"
    and "window_rows wexpr tree sc pc bsc bec s0 (Suc g) = Inr sg"
    and "g \<le> h" and "peer_rows (window_rows wexpr tree sc pc bsc bec s0) g h"
  shows "dense_rank (ranks_of sh) = dense_rank (ranks_of sg) \<and>
         rank (ranks_of sh) = rank (ranks_of sg) \<and>
         (rank_emitted_rows wexpr (window_rows wexpr tree sc pc bsc bec s0) (g + 1) h \<longrightarrow>
            rank_equal (ranks_of sh) = rank_equal (ranks_of sg) + of_nat (h - g))"
  using assms
proof (induction h arbitrary: sh)
  case 0
  then show ?case by simp
next
  case (Suc h)
  show ?case
  proof (cases "g = Suc h")
    case True
    with Suc.prems(1,2) show ?thesis by simp
  next
    case False
    with Suc.prems(3) have gh: "g \<le> h" by simp
    from window_rows_Suc [OF Suc.prems(1)] obtain s1 where
      s1: "window_rows wexpr tree sc pc bsc bec s0 (Suc h) = Inr s1" by blast
    note step = rank_step [OF Suc.prems(1) s1]
    from step have same: "is_peer (bounds_of sh) \<longrightarrow> is_same_partition (bounds_of sh)"
      by simp
    from step have ranks: "ranks_of sh =
             (if emits_rank wexpr (bounds_of sh)
              then (update_rank (bounds_of sh) (Suc h) (ranks_of s1))
                     \<lparr>rank_equal := rank_equal (update_rank (bounds_of sh) (Suc h) (ranks_of s1)) + 1\<rparr>
              else update_rank (bounds_of sh) (Suc h) (ranks_of s1))"
      by simp
    have mem: "Suc h \<in> {g + 1 .. Suc h}" using Suc.prems(3) False by simp
    from Suc.prems(4) [unfolded peer_rows_def, rule_format, OF mem] Suc.prems(1)
    have peer: "is_peer (bounds_of sh)" by simp
    with same have upd: "update_rank (bounds_of sh) (Suc h) (ranks_of s1) = ranks_of s1"
      by (simp add: update_rank_def)
    note ih = Suc.IH [OF s1 Suc.prems(2) gh peer_rows_shorter [OF Suc.prems(4)]]
    have "rank_emitted_rows wexpr (window_rows wexpr tree sc pc bsc bec s0) (g + 1) (Suc h) \<longrightarrow>
            rank_equal (ranks_of sh) = rank_equal (ranks_of sg) + of_nat (Suc h - g)"
    proof
      assume em: "rank_emitted_rows wexpr (window_rows wexpr tree sc pc bsc bec s0) (g + 1) (Suc h)"
      from em [unfolded rank_emitted_rows_def, rule_format, OF mem] Suc.prems(1)
      have e: "emits_rank wexpr (bounds_of sh)" by simp
      from ih rank_emitted_rows_shorter [OF em]
      have "rank_equal (ranks_of s1) = rank_equal (ranks_of sg) + of_nat (h - g)" by simp
      moreover have "Suc h - g = Suc (h - g)" using gh by simp
      ultimately show "rank_equal (ranks_of sh) = rank_equal (ranks_of sg) + of_nat (Suc h - g)"
        using ranks upd e by simp
    qed
    with ih ranks upd show ?thesis by simp
  qed
qed

lemma peer_rows_sub:
  assumes "peer_rows f g h" and "k \<le> h"
  shows "peer_rows f g k"
  using assms by (auto simp: peer_rows_def)

lemma output_of_earlier_row:
  assumes "window_rows wexpr tree sc pc bsc bec s0 n = Inr s"
    and "window_rows wexpr tree sc pc bsc bec s0 (Suc k) = Inr sk"
    and "Suc k \<le> n" and "output s0 = []"
  shows "output s ! k = last (output sk)"
proof -
  have len: "length (output sk) = Suc k"
    using window_rows_length [OF assms(2)] assms(4) by simp
  have "take (length (output sk)) (output s) = output sk"
    by (rule window_rows_output [OF assms(1,2,3)])
  then have "output s ! k = output sk ! k"
    using len by (metis lessI nth_take)
  also have "\<dots> = last (output sk)"
    using len by (metis diff_Suc_1 last_conv_nth length_0_conv nat.distinct(1))
  finally show ?thesis .
qed

text \<open>
  The counters along a peer group, as the sweep keeps them.  Row \<open>g\<close> opens a peer
  group, the rows up to \<open>h\<close> are its peers and
  row \<open>h + 1\<close> is the next distinct row of the partition.  On the first row of a partition
  \<open>dense_rank = rank = 1\<close>; a row that opens a peer group resets \<open>rank_equal\<close> before
  its own result; peers keep \<open>dense_rank\<close> and \<open>rank\<close>; on the next distinct row
  \<open>dense_rank\<close> grows by 1 and \<open>rank\<close> by \<open>rank_equal\<close>.  \<open>RANK\<close> emits \<open>rank\<close> and
  increments \<open>rank_equal\<close> on the rows whose frame is not empty: when that is every row
  of the peer group, the peers share their rank and the rank of the next distinct row is
  the prior rank plus the size of the peer group.
\<close>

lemma ranking_counters_over_peer_group:
  assumes "output s0 = []"
    and "window_rows wexpr tree sc pc bsc bec s0 (Suc g) = Inr sg"
    and "window_rows wexpr tree sc pc bsc bec s0 (Suc h) = Inr sh"
    and "window_rows wexpr tree sc pc bsc bec s0 (Suc (Suc h)) = Inr sn"
    and "g \<le> h"
    and "g = 0 \<or> \<not> is_peer (bounds_of sg)"
    and "peer_rows (window_rows wexpr tree sc pc bsc bec s0) g h"
    and "is_same_partition (bounds_of sn)" and "\<not> is_peer (bounds_of sn)"
  shows "(g = 0 \<or> \<not> is_same_partition (bounds_of sg) \<longrightarrow>
            dense_rank (ranks_of sg) = 1 \<and> rank (ranks_of sg) = 1) \<and>
         rank_equal (ranks_of sg) = (if emits_rank wexpr (bounds_of sg) then 1 else 0) \<and>
         dense_rank (ranks_of sh) = dense_rank (ranks_of sg) \<and>
         rank (ranks_of sh) = rank (ranks_of sg) \<and>
         dense_rank (ranks_of sn) = dense_rank (ranks_of sg) + 1 \<and>
         rank (ranks_of sn) = rank (ranks_of sg) + rank_equal (ranks_of sh) \<and>
         rank_equal (ranks_of sn) = (if emits_rank wexpr (bounds_of sn) then 1 else 0) \<and>
         (rank_emitted_rows wexpr (window_rows wexpr tree sc pc bsc bec s0) g h \<longrightarrow>
            (\<forall>k \<in> {g .. h}.
               output sn ! k = Numeric (return_type wexpr) (sint (rank (ranks_of sg)))) \<and>
            rank_equal (ranks_of sh) = of_nat (h - g + 1) \<and>
            rank (ranks_of sn) = rank (ranks_of sg) + of_nat (h - g + 1)) \<and>
         (emits_rank wexpr (bounds_of sn) \<longrightarrow>
            output sn ! Suc h = Numeric (return_type wexpr) (sint (rank (ranks_of sn)))) \<and>
         (wtype wexpr = WINDOW_RANK_DENSE \<and>
          sint (window_start (bounds_of sn)) < sint (window_end (bounds_of sn)) \<longrightarrow>
            output sn ! Suc h = Numeric (return_type wexpr) (sint (dense_rank (ranks_of sn))))"
proof -
  let ?W = "window_rows wexpr tree sc pc bsc bec s0"
  \<comment> \<open>the row that opens the peer group\<close>
  from window_rows_Suc [OF assms(2)] obtain s1 where s1: "?W g = Inr s1" by blast
  from rank_step [OF assms(2) s1] have
    ranks_g: "ranks_of sg =
             (if emits_rank wexpr (bounds_of sg)
              then (update_rank (bounds_of sg) g (ranks_of s1))
                     \<lparr>rank_equal := rank_equal (update_rank (bounds_of sg) g (ranks_of s1)) + 1\<rparr>
              else update_rank (bounds_of sg) g (ranks_of s1))"
    by simp
  have first: "g = 0 \<or> \<not> is_same_partition (bounds_of sg) \<longrightarrow>
            dense_rank (ranks_of sg) = 1 \<and> rank (ranks_of sg) = 1"
    using ranks_g by (auto simp: update_rank_def)
  have reset_g: "rank_equal (ranks_of sg) = (if emits_rank wexpr (bounds_of sg) then 1 else 0)"
    using ranks_g assms(6) by (auto simp: update_rank_def)
  \<comment> \<open>the peers\<close>
  note keep = peers_keep_ranks [OF assms(3,2,5,7)]
  \<comment> \<open>the next distinct row\<close>
  note step_n = rank_step [OF assms(4,3)]
  define res where "res = last (output sn)"
  from step_n have out_n: "output sn = output sh @ [res]"
    unfolding res_def by simp
  from step_n have ranks_n: "ranks_of sn =
             (if emits_rank wexpr (bounds_of sn)
              then (update_rank (bounds_of sn) (Suc h) (ranks_of sh))
                     \<lparr>rank_equal := rank_equal (update_rank (bounds_of sn) (Suc h) (ranks_of sh)) + 1\<rparr>
              else update_rank (bounds_of sn) (Suc h) (ranks_of sh))"
    by simp
  from step_n have emit_n: "emits_rank wexpr (bounds_of sn) \<longrightarrow>
              res = Numeric (return_type wexpr) (sint (rank (ranks_of sn)))"
    unfolding res_def by simp
  from step_n have dense_n: "wtype wexpr = WINDOW_RANK_DENSE \<and>
            sint (window_start (bounds_of sn)) < sint (window_end (bounds_of sn)) \<longrightarrow>
              res = Numeric (return_type wexpr) (sint (dense_rank (ranks_of sn)))"
    unfolding res_def by simp
  have s2h: "sh = sh" ..
  have upd_n: "update_rank (bounds_of sn) (Suc h) (ranks_of sh) =
        \<lparr>dense_rank = dense_rank (ranks_of sh) + 1, rank_equal = 0,
         rank = rank (ranks_of sh) + rank_equal (ranks_of sh)\<rparr>"
    using assms(8,9) by (simp add: update_rank_def)
  have dense_next: "dense_rank (ranks_of sn) = dense_rank (ranks_of sg) + 1"
    using ranks_n upd_n s2h keep by simp
  have rank_next: "rank (ranks_of sn) = rank (ranks_of sg) + rank_equal (ranks_of sh)"
    using ranks_n upd_n s2h keep by simp
  have reset_n: "rank_equal (ranks_of sn) = (if emits_rank wexpr (bounds_of sn) then 1 else 0)"
    using ranks_n upd_n s2h by simp
  have len_h: "length (output sh) = Suc h"
    using window_rows_length [OF assms(3)] assms(1) by simp
  have out_next: "output sn ! Suc h = res"
    using out_n len_h by (metis nth_append_length)
  \<comment> \<open>the ranks emitted for the peer group\<close>
  have group: "rank_emitted_rows wexpr ?W g h \<longrightarrow>
            (\<forall>k \<in> {g .. h}.
               output sn ! k = Numeric (return_type wexpr) (sint (rank (ranks_of sg)))) \<and>
            rank_equal (ranks_of sh) = of_nat (h - g + 1) \<and>
            rank (ranks_of sn) = rank (ranks_of sg) + of_nat (h - g + 1)"
  proof
    assume em: "rank_emitted_rows wexpr ?W g h"
    have eg: "emits_rank wexpr (bounds_of sg)"
      using em [unfolded rank_emitted_rows_def, rule_format, of g] assms(2,5) by simp
    have em1: "rank_emitted_rows wexpr ?W (g + 1) h"
      using em by (auto simp: rank_emitted_rows_def)
    have re: "rank_equal (ranks_of sh) = of_nat (h - g + 1)"
      using keep em1 reset_g eg by simp
    have "\<forall>k \<in> {g .. h}.
            output sn ! k = Numeric (return_type wexpr) (sint (rank (ranks_of sg)))"
    proof
      fix k assume k: "k \<in> {g .. h}"
      then have kh: "Suc k \<le> Suc (Suc h)" and gk: "g \<le> k" and kh': "k \<le> h" by simp_all
      from window_rows_earlier [OF assms(4) kh] obtain sk where sk: "?W (Suc k) = Inr sk" ..
      from em [unfolded rank_emitted_rows_def, rule_format, OF k] sk
      have ek: "emits_rank wexpr (bounds_of sk)" by simp
      from window_rows_Suc [OF sk] obtain s3 where s3: "?W k = Inr s3" by blast
      from rank_step [OF sk s3] ek
      have "last (output sk) = Numeric (return_type wexpr) (sint (rank (ranks_of sk)))"
        by simp
      moreover have "rank (ranks_of sk) = rank (ranks_of sg)"
        using peers_keep_ranks [OF sk assms(2) gk peer_rows_sub [OF assms(7) kh']] by simp
      moreover have "output sn ! k = last (output sk)"
        by (rule output_of_earlier_row [OF assms(4) sk kh assms(1)])
      ultimately show "output sn ! k = Numeric (return_type wexpr) (sint (rank (ranks_of sg)))"
        by simp
    qed
    with re rank_next show "(\<forall>k \<in> {g .. h}.
               output sn ! k = Numeric (return_type wexpr) (sint (rank (ranks_of sg)))) \<and>
            rank_equal (ranks_of sh) = of_nat (h - g + 1) \<and>
            rank (ranks_of sn) = rank (ranks_of sg) + of_nat (h - g + 1)"
      by simp
  qed
  show ?thesis
    using first reset_g keep dense_next rank_next reset_n group emit_n dense_n out_next
    by simp
qed

lemma ranking_counters_over_peer_group_run:
  "\<not> isl (ranked_rows UNBOUNDED_PRECEDING CURRENT_ROW_RANGE 0 0 [10, 20, 20, 30] 4) \<and>
   peer_rows (ranked_rows UNBOUNDED_PRECEDING CURRENT_ROW_RANGE 0 0 [10, 20, 20, 30]) 1 2 \<and>
   rank_emitted_rows (window_expression WINDOW_RANK 0 1 UNBOUNDED_PRECEDING CURRENT_ROW_RANGE)
     (ranked_rows UNBOUNDED_PRECEDING CURRENT_ROW_RANGE 0 0 [10, 20, 20, 30]) 1 2 \<and>
   rank (ranks_of (projr (ranked_rows UNBOUNDED_PRECEDING CURRENT_ROW_RANGE 0 0 [10, 20, 20, 30] 2))) = 2 \<and>
   rank (ranks_of (projr (ranked_rows UNBOUNDED_PRECEDING CURRENT_ROW_RANGE 0 0 [10, 20, 20, 30] 4))) =
     2 + of_nat (2 - 1 + 1) \<and>
   map numeric (output (projr (ranked_rows UNBOUNDED_PRECEDING CURRENT_ROW_RANGE 0 0 [10, 20, 20, 30] 4))) =
     [1, 2, 2, 4]"
proof -
  let ?W = "ranked_rows UNBOUNDED_PRECEDING CURRENT_ROW_RANGE 0 0 [10, 20, 20, 30]"
  let ?w = "window_expression WINDOW_RANK 0 1 UNBOUNDED_PRECEDING CURRENT_ROW_RANGE"
  have r2: "\<not> isl (?W 2)" and r3: "\<not> isl (?W 3)" and r4: "\<not> isl (?W 4)"
    by code_simp+
  have sg: "?W (Suc 1) = Inr (projr (?W 2))"
    and sh: "?W (Suc 2) = Inr (projr (?W 3))"
    and sn: "?W (Suc (Suc 2)) = Inr (projr (?W 4))"
    using r2 r3 r4 by (simp_all add: numeral_2_eq_2 numeral_3_eq_3 eval_nat_numeral)
  have peers: "peer_rows ?W 1 2" by code_simp
  have emitted: "rank_emitted_rows ?w ?W 1 2" by code_simp
  have opens: "(1::nat) = 0 \<or> \<not> is_peer (bounds_of (projr (?W 2)))" by code_simp
  have next_same: "is_same_partition (bounds_of (projr (?W 4)))" by code_simp
  have next_distinct: "\<not> is_peer (bounds_of (projr (?W 4)))" by code_simp
  have rank_g: "rank (ranks_of (projr (?W 2))) = 2" by code_simp
  have outs: "map numeric (output (projr (?W 4))) = [1, 2, 2, 4]" by code_simp
  have e: "output (initial_sweep [Numeric BIGINT (hd [10, 20, 20, 30])]) = []"
    by (simp add: initial_sweep_def)
  note main = ranking_counters_over_peer_group
    [OF e sg [unfolded ranked_rows_def] sh [unfolded ranked_rows_def]
        sn [unfolded ranked_rows_def] _ opens [unfolded ranked_rows_def]
        peers [unfolded ranked_rows_def] next_same [unfolded ranked_rows_def]
        next_distinct [unfolded ranked_rows_def]]
  have "rank (ranks_of (projr (?W 4))) = rank (ranks_of (projr (?W 2))) + of_nat (2 - 1 + 1)"
    using main emitted [unfolded ranked_rows_def] by (simp add: ranked_rows_def)
  with r4 peers emitted rank_g outs show ?thesis by simp
qed

text \<open>
  C4.  \<open>RANK\<close> is to give the next distinct row the prior rank plus the size of the
  peer group, and on distinct keys \<open>RANK\<close> and \<open>DENSE_RANK\<close> number the rows alike.
  \<open>rank_equal\<close> is incremented in the \<open>RANK\<close> case, which a row with an empty frame
  does not reach, while \<open>dense_rank\<close> and \<open>rank\<close> advance before the test of the frame.
  With \<open>ORDER BY k ROWS BETWEEN 2 PRECEDING AND 1 PRECEDING\<close> the frame of the first row
  is empty: on the keys 10, 10, 20 \<open>RANK\<close> gives \<open>NULL\<close>, 1, 2, the third row ranking
  2 after a peer group of two rows of rank 1; on the distinct keys 10, 20, 30 \<open>RANK\<close>
  gives \<open>NULL\<close>, 1, 2 and \<open>DENSE_RANK\<close> gives \<open>NULL\<close>, 2, 3.
\<close>

theorem rank_misses_rows_with_empty_frame:
  "ComputeWindowExpression 10 (window_expression WINDOW_RANK 0 1 EXPR_PRECEDING EXPR_PRECEDING) 3
     (collection_of 1 [[10], [10], [20]]) empty_collection
     (collection_of 1 [[2]]) (collection_of 1 [[1]]) =
     Inr [NullValue SQLNULL, Numeric BIGINT 1, Numeric BIGINT 2] \<and>
   map_sum id (\<lambda>s. (is_same_partition (bounds_of s), is_peer (bounds_of s)))
     (ranked_rows EXPR_PRECEDING EXPR_PRECEDING 2 1 [10, 10, 20] 2) = Inr (True, True) \<and>
   map_sum id (\<lambda>s. (is_same_partition (bounds_of s), is_peer (bounds_of s)))
     (ranked_rows EXPR_PRECEDING EXPR_PRECEDING 2 1 [10, 10, 20] 3) = Inr (True, False) \<and>
   ComputeWindowExpression 10 (window_expression WINDOW_RANK 0 1 EXPR_PRECEDING EXPR_PRECEDING) 3
     (collection_of 1 [[10], [20], [30]]) empty_collection
     (collection_of 1 [[2]]) (collection_of 1 [[1]]) =
     Inr [NullValue SQLNULL, Numeric BIGINT 1, Numeric BIGINT 2] \<and>
   ComputeWindowExpression 10
     (window_expression WINDOW_RANK_DENSE 0 1 EXPR_PRECEDING EXPR_PRECEDING) 3
     (collection_of 1 [[10], [20], [30]]) empty_collection
     (collection_of 1 [[2]]) (collection_of 1 [[1]]) =
     Inr [NullValue SQLNULL, Numeric BIGINT 2, Numeric BIGINT 3]"
  by code_simp












lemma same_value_refl [simp]: "same_value a a"
  by (simp add: same_value_def)






















lemma members_remaining [simp]: "members (st\<lparr>remaining_filters := fs\<rparr>) = members st"
  by (simp add: members_def fun_eq_iff)



















end
